theory Spec2Isabelle
  imports Main "HOL-Library.Word" "HOL-Library.Multiset" "HOL-Library.Sublist"
begin

section \<open>PFSExtractor: a shallow embedding of pfsextractor.cpp\<close>

text \<open>
  The program reads a whole Dell PFS file into one heap buffer and walks it with
  \<^verbatim>\<open>pfs_extract\<close>. The embedding keeps that shape:
  \<^item> the loaded file is one allocation, a list of bytes \<open>mem\<close>; a pointer into it is
    an offset (\<open>nat\<close>), the null pointer is \<open>None\<close>;
  \<^item> a read that leaves the allocation is undefined behaviour in C; the model stops
    there with the result \<open>Inl OutOfBoundsRead\<close>, keeping everything written so far;
  \<^item> \<^verbatim>\<open>printf\<close> output and the calls of \<^verbatim>\<open>write_file\<close> are appended to an
    explicit output state (\<open>console\<close>, \<open>files\<close>);
  \<^item> the file system is a parameter \<open>env\<close>: the outcome of the k-th call of
    \<^verbatim>\<open>write_file\<close>;
  \<^item> \<^verbatim>\<open>std::sort\<close> is a parameter \<open>srt\<close>; the C++ standard promises a sorted
    permutation and no more (\<open>sort_contract\<close>);
  \<^item> \<^verbatim>\<open>size_t\<close> and pointers are 64 bits wide, so adding 32-bit sizes to them does
    not wrap; multi-byte fields are little-endian, as section 6 of the specification
    says;
  \<^item> strings are lists of characters: the buffers \<^verbatim>\<open>version[30]\<close> and
    \<^verbatim>\<open>filename[240]\<close> cannot overflow (lemmas \<open>version_buffer_suffices\<close> and
    \<open>filename_buffer_suffices\<close>), and heap allocation is taken to succeed.
\<close>

type_synonym u8 = "8 word"
type_synonym u16 = "16 word"
type_synonym u32 = "32 word"
type_synonym u64 = "64 word"

subsection \<open>Reading the buffer\<close>

datatype ub = OutOfBoundsRead | InvalidRange

definition read_bytes :: "u8 list \<Rightarrow> nat \<Rightarrow> nat \<Rightarrow> u8 list option" where
  "read_bytes mem a n = (if a + n \<le> length mem then Some (take n (drop a mem)) else None)"

definition le16 :: "u8 list \<Rightarrow> u16" where
  "le16 bs = word_rcat (rev bs)"

definition le32 :: "u8 list \<Rightarrow> u32" where
  "le32 bs = word_rcat (rev bs)"

definition le64 :: "u8 list \<Rightarrow> u64" where
  "le64 bs = word_rcat (rev bs)"

definition rd16 :: "u8 list \<Rightarrow> nat \<Rightarrow> u16 option" where
  "rd16 mem a = map_option le16 (read_bytes mem a 2)"

definition rd64 :: "u8 list \<Rightarrow> nat \<Rightarrow> u64 option" where
  "rd64 mem a = map_option le64 (read_bytes mem a 8)"

definition bytes_of :: "string \<Rightarrow> u8 list" where
  "bytes_of str = map (\<lambda>c. word_of_nat (of_char c)) str"

subsection \<open>PFS structure definitions (source lines 61-98)\<close>

record PFS_FILE_HEADER =
  fh_Signature :: u64
  fh_HeaderVersion :: u32
  fh_DataSize :: u32

definition PFS_HEADER_SIGNATURE :: u64 where
  "PFS_HEADER_SIGNATURE = le64 (bytes_of ''PFS.HDR.'')"

record PFS_FILE_FOOTER =
  ff_DataSize :: u32
  ff_Checksum :: u32
  ff_Signature :: u64

definition PFS_FOOTER_SIGNATURE :: u64 where
  "PFS_FOOTER_SIGNATURE = le64 (bytes_of ''PFS.FTR.'')"

record EFI_GUID =
  Data1 :: u32
  Data2 :: u16
  Data3 :: u16
  Data4 :: "u8 list"

record PFS_SECTION_HEADER =
  sh_Guid1 :: EFI_GUID
  sh_HeaderVersion :: u32
  sh_VersionType :: "u8 list"
  sh_Version :: "u16 list"
  sh_Reserved :: u64
  sh_DataSize :: u32
  sh_DataSignatureSize :: u32
  sh_MetadataSize :: u32
  sh_MetadataSignatureSize :: u32
  sh_Guid2 :: EFI_GUID

text \<open>\<^verbatim>\<open>sizeof\<close> of the packed structures.\<close>

definition FILE_HEADER_SIZE :: nat where "FILE_HEADER_SIZE = 16"
definition FILE_FOOTER_SIZE :: nat where "FILE_FOOTER_SIZE = 16"
definition SECTION_HEADER_SIZE :: nat where "SECTION_HEADER_SIZE = 72"

text \<open>Overlaying a structure on the buffer reads its fields at their packed offsets.\<close>

definition read_file_header :: "u8 list \<Rightarrow> nat \<Rightarrow> PFS_FILE_HEADER option" where
  "read_file_header mem a =
     (case read_bytes mem a FILE_HEADER_SIZE of
        None \<Rightarrow> None
      | Some bs \<Rightarrow> Some \<lparr> fh_Signature = le64 (take 8 bs),
                          fh_HeaderVersion = le32 (take 4 (drop 8 bs)),
                          fh_DataSize = le32 (take 4 (drop 12 bs)) \<rparr>)"

definition read_file_footer :: "u8 list \<Rightarrow> nat \<Rightarrow> PFS_FILE_FOOTER option" where
  "read_file_footer mem a =
     (case read_bytes mem a FILE_FOOTER_SIZE of
        None \<Rightarrow> None
      | Some bs \<Rightarrow> Some \<lparr> ff_DataSize = le32 (take 4 bs),
                          ff_Checksum = le32 (take 4 (drop 4 bs)),
                          ff_Signature = le64 (take 8 (drop 8 bs)) \<rparr>)"

definition parse_guid :: "u8 list \<Rightarrow> EFI_GUID" where
  "parse_guid bs = \<lparr> Data1 = le32 (take 4 bs), Data2 = le16 (take 2 (drop 4 bs)),
                      Data3 = le16 (take 2 (drop 6 bs)), Data4 = take 8 (drop 8 bs) \<rparr>"

definition read_section_header :: "u8 list \<Rightarrow> nat \<Rightarrow> PFS_SECTION_HEADER option" where
  "read_section_header mem a =
     (case read_bytes mem a SECTION_HEADER_SIZE of
        None \<Rightarrow> None
      | Some bs \<Rightarrow> Some \<lparr> sh_Guid1 = parse_guid (take 16 bs),
                          sh_HeaderVersion = le32 (take 4 (drop 16 bs)),
                          sh_VersionType = take 4 (drop 20 bs),
                          sh_Version = [le16 (take 2 (drop 24 bs)), le16 (take 2 (drop 26 bs)),
                                        le16 (take 2 (drop 28 bs)), le16 (take 2 (drop 30 bs))],
                          sh_Reserved = le64 (take 8 (drop 32 bs)),
                          sh_DataSize = le32 (take 4 (drop 40 bs)),
                          sh_DataSignatureSize = le32 (take 4 (drop 44 bs)),
                          sh_MetadataSize = le32 (take 4 (drop 48 bs)),
                          sh_MetadataSignatureSize = le32 (take 4 (drop 52 bs)),
                          sh_Guid2 = parse_guid (take 16 (drop 56 bs)) \<rparr>)"

subsection \<open>printf conversions\<close>

definition hex_digit :: "nat \<Rightarrow> char" where
  "hex_digit d = ''0123456789ABCDEF'' ! d"

fun to_hex :: "nat \<Rightarrow> string" where
  "to_hex n = (if n < 16 then [hex_digit n] else to_hex (n div 16) @ [hex_digit (n mod 16)])"

fun to_dec :: "nat \<Rightarrow> string" where
  "to_dec n = (if n < 10 then [hex_digit n] else to_dec (n div 10) @ [hex_digit (n mod 10)])"

declare to_hex.simps [simp del] to_dec.simps [simp del]

text \<open>\<^verbatim>\<open>%08X\<close>, \<^verbatim>\<open>%04X\<close>, \<^verbatim>\<open>%02X\<close>: zero padding to a minimum width.\<close>

definition hex_pad :: "nat \<Rightarrow> nat \<Rightarrow> string" where
  "hex_pad w n = replicate (w - length (to_hex n)) (CHR ''0'') @ to_hex n"

text \<open>Source lines 102-113. The argument is never null at the two call sites.\<close>

definition guid_to_string :: "EFI_GUID \<Rightarrow> string" where
  "guid_to_string guid =
     hex_pad 8 (unat (Data1 guid)) @ ''-'' @ hex_pad 4 (unat (Data2 guid)) @ ''-'' @
     hex_pad 4 (unat (Data3 guid)) @ ''-'' @
     concat (map (\<lambda>b. hex_pad 2 (unat b)) (take 2 (Data4 guid))) @ ''-'' @
     concat (map (\<lambda>b. hex_pad 2 (unat b)) (drop 2 (Data4 guid)))"

subsection \<open>Output: the console and the output sink\<close>

datatype msg =
    InputTooSmall
  | FileHeaderInfo bool u64 u32 u32
  | InvalidHeaderSignature
  | UnknownHeaderVersion u32
  | FileTooSmallForImage
  | FileFooterInfo bool u64 u32 u32
  | InvalidFooterSignature
  | DataSizeMismatch u32 u32
  | SectionHeaderInfo bool u8 string string u32 u32 u32 u32
  | UnknownVersionType u8 u16
  | VersionInfo string
  | CantCreate string
  | CantWrite string

datatype io_result = IoOk | CreateFailed | WriteFailed

text \<open>
  One entry of \<open>files\<close> is one call of \<^verbatim>\<open>write_file\<close>: the file name, the bytes of the
  region handed over (\<open>None\<close> when the region is not inside the allocation) and the
  value returned.
\<close>

type_synonym sink_call = "string \<times> u8 list option \<times> u8"

record out_state =
  console :: "msg list"
  files :: "sink_call list"

definition say :: "msg \<Rightarrow> out_state \<Rightarrow> out_state" where
  "say m s = s\<lparr> console := console s @ [m] \<rparr>"

text \<open>
  Source lines 117-134. \<^verbatim>\<open>fopen\<close> fails before the buffer is touched; \<^verbatim>\<open>fwrite\<close> reads
  the whole region.
\<close>

definition write_file ::
  "(nat \<Rightarrow> io_result) \<Rightarrow> string \<Rightarrow> u8 list option \<Rightarrow> out_state \<Rightarrow> out_state \<times> (ub + u8)" where
  "write_file env filename buf s =
     (case env (length (files s)) of
        CreateFailed \<Rightarrow>
          (s\<lparr> console := console s @ [CantCreate filename],
              files := files s @ [(filename, buf, 1)] \<rparr>, Inr 1)
      | WriteFailed \<Rightarrow>
          (case buf of
             None \<Rightarrow> (s, Inl OutOfBoundsRead)
           | Some bs \<Rightarrow>
               (s\<lparr> console := console s @ [CantWrite filename],
                   files := files s @ [(filename, buf, 2)] \<rparr>, Inr 2))
      | IoOk \<Rightarrow>
          (case buf of
             None \<Rightarrow> (s, Inl OutOfBoundsRead)
           | Some bs \<Rightarrow> (s\<lparr> files := files s @ [(filename, buf, 0)] \<rparr>, Inr 0)))"

subsection \<open>Subsection chunks (source lines 137-142)\<close>

record PFS_CHUNK =
  data :: "u8 list"
  orderNum :: u16

type_synonym sorter = "PFS_CHUNK list \<Rightarrow> PFS_CHUNK list"

text \<open>What the C++ standard promises of \<^verbatim>\<open>std::sort\<close> with this \<^verbatim>\<open>operator<\<close>.\<close>

definition sort_contract :: "sorter \<Rightarrow> bool" where
  "sort_contract srt =
     (\<forall>cs. mset (srt cs) = mset cs \<and> sorted_wrt (\<lambda>a b. \<not> orderNum b < orderNum a) (srt cs))"

text \<open>
  Source lines 263-266: the order number at offset 0x3E, the payload from offset 0x248
  to the end of the data block. A block shorter than 0x248 bytes makes the iterator
  range of the vector constructor invalid.
\<close>

definition collect_chunk :: "u8 list \<Rightarrow> nat \<Rightarrow> nat \<Rightarrow> ub + PFS_CHUNK" where
  "collect_chunk mem ptr sz =
     (case rd16 mem (ptr + 0x3E) of
        None \<Rightarrow> Inl OutOfBoundsRead
      | Some n \<Rightarrow>
          if sz < 0x248 then Inl InvalidRange
          else (case read_bytes mem (ptr + 0x248) (sz - 0x248) of
                  None \<Rightarrow> Inl OutOfBoundsRead
                | Some bs \<Rightarrow> Inr \<lparr> data = bs, orderNum = n \<rparr>))"

subsection \<open>The version string (source lines 226-252)\<close>

function version_loop ::
  "u8 list \<Rightarrow> u16 list \<Rightarrow> nat \<Rightarrow> string \<Rightarrow> msg list \<Rightarrow> string \<times> msg list" where
  "version_loop vt vv i version out =
     (if i < 4 then
        (if vt ! i = 0x41 then
           version_loop vt vv (i + 1) (version @ to_hex (unat (vv ! i)) @ ''.'') out
         else if vt ! i = 0x4E then
           version_loop vt vv (i + 1) (version @ to_dec (unat (vv ! i)) @ ''.'') out
         else if vt ! i = 0x20 \<or> vt ! i = 0 then (version, out)
         else version_loop vt vv (i + 1) version (out @ [UnknownVersionType (vt ! i) (vv ! i)]))
      else (version, out))"
  by pat_completeness auto
termination
  by (relation "measure (\<lambda>(vt, vv, i, version, out). 4 - i)") auto

declare version_loop.simps [simp del]

definition decode_version :: "PFS_SECTION_HEADER \<Rightarrow> out_state \<Rightarrow> string \<times> out_state" where
  "decode_version sh s =
     (case version_loop (sh_VersionType sh) (sh_Version sh) 0 [] [] of
        (version, out) \<Rightarrow>
          if version \<noteq> [] then
            (version, s\<lparr> console := console s @ out @ [VersionInfo version] \<rparr>)
          else (''.'', s\<lparr> console := console s @ out \<rparr>))"

subsection \<open>File names and the blocks after the data block\<close>

definition section_name :: "u8 \<Rightarrow> string \<Rightarrow> string \<Rightarrow> string" where
  "section_name sectionNum version ext =
     ''section_'' @ to_dec (unat sectionNum) @ ''_'' @ version @ ext"

text \<open>
  Source lines 278-283, 285-290 and 292-297: a non-empty block is written unless the
  pass is a subsection pass.
\<close>

definition emit_block ::
  "(nat \<Rightarrow> io_result) \<Rightarrow> u8 list \<Rightarrow> bool \<Rightarrow> string \<Rightarrow> nat \<Rightarrow> u32 \<Rightarrow> out_state
     \<Rightarrow> out_state \<times> (ub + unit)" where
  "emit_block env mem isSubsection filename ptr sz s =
     (if sz \<noteq> 0 \<and> \<not> isSubsection then
        (case write_file env filename (read_bytes mem ptr (unat sz)) s of
           (s', Inl e) \<Rightarrow> (s', Inl e)
         | (s', Inr rc) \<Rightarrow> (s', Inr ()))
      else (s, Inr ()))"

definition emit_rest ::
  "(nat \<Rightarrow> io_result) \<Rightarrow> u8 list \<Rightarrow> bool \<Rightarrow> u8 \<Rightarrow> string \<Rightarrow> nat \<Rightarrow> PFS_SECTION_HEADER
     \<Rightarrow> out_state \<Rightarrow> out_state \<times> (ub + unit)" where
  "emit_rest env mem isSubsection sectionNum version ptr sh s =
     (case emit_block env mem isSubsection (section_name sectionNum version ''sign'')
             ptr (sh_DataSignatureSize sh) s of
        (s1, Inl e) \<Rightarrow> (s1, Inl e)
      | (s1, Inr u1) \<Rightarrow>
     (case emit_block env mem isSubsection (section_name sectionNum version ''meta'')
             (ptr + unat (sh_DataSignatureSize sh)) (sh_MetadataSize sh) s1 of
        (s2, Inl e) \<Rightarrow> (s2, Inl e)
      | (s2, Inr u2) \<Rightarrow>
          emit_block env mem isSubsection (section_name sectionNum version ''mtsg'')
             (ptr + unat (sh_DataSignatureSize sh) + unat (sh_MetadataSize sh))
             (sh_MetadataSignatureSize sh) s2))"

text \<open>The bytes one section occupies after its header.\<close>

definition blocks_size :: "PFS_SECTION_HEADER \<Rightarrow> nat" where
  "blocks_size sh = unat (sh_DataSize sh) + unat (sh_DataSignatureSize sh) +
     unat (sh_MetadataSize sh) + unat (sh_MetadataSignatureSize sh)"

text \<open>Source lines 304-318: what a pass does once its walk has ended.\<close>

definition finish_pass ::
  "sorter \<Rightarrow> (nat \<Rightarrow> io_result) \<Rightarrow> string option \<Rightarrow> out_state \<times> (ub + PFS_CHUNK list)
     \<Rightarrow> out_state \<times> (ub + u8)" where
  "finish_pass srt env filename w =
     (case w of
        (s, Inl e) \<Rightarrow> (s, Inl e)
      | (s, Inr chunks) \<Rightarrow>
          (case filename of
             None \<Rightarrow> (s, Inr 0)
           | Some name \<Rightarrow>
               (case write_file env name (Some (concat (map data (srt chunks)))) s of
                  (s', Inl e) \<Rightarrow> (s', Inl e)
                | (s', Inr rc) \<Rightarrow> (s', Inr 0))))"

text \<open>
  Source lines 277-298 as the continuation of the data block: the pointer moves past
  the data block and the three remaining blocks are written.
\<close>

definition after_data ::
  "(nat \<Rightarrow> io_result) \<Rightarrow> u8 list \<Rightarrow> bool \<Rightarrow> u8 \<Rightarrow> string \<Rightarrow> nat \<Rightarrow> PFS_SECTION_HEADER
     \<Rightarrow> out_state \<times> (ub + PFS_CHUNK list) \<Rightarrow> out_state \<times> (ub + PFS_CHUNK list)" where
  "after_data env mem isSubsection sectionNum version ptr sh w =
     (case w of
        (s3, Inl e) \<Rightarrow> (s3, Inl e)
      | (s3, Inr chunks') \<Rightarrow>
          (case emit_rest env mem isSubsection sectionNum version
                  (ptr + unat (sh_DataSize sh)) sh s3 of
             (s4, Inl e) \<Rightarrow> (s4, Inl e)
           | (s4, Inr u) \<Rightarrow> (s4, Inr chunks')))"

subsection \<open>The extract function (source lines 146-319)\<close>

text \<open>
  \<open>pfs_extract\<close> is the function, \<open>walk\<close> its \<^verbatim>\<open>while\<close> loop (lines 207-302) with the
  loop variables \<open>sectionHeader\<close>, \<open>sectionNum\<close> (a \<^verbatim>\<open>uint8_t\<close>) and \<open>chunks\<close>, and
  \<open>section_body\<close> one iteration of the loop body (lines 208-298). The loop body calls
  \<open>pfs_extract\<close> again at line 273.
\<close>

function pfs_extract ::
  "sorter \<Rightarrow> (nat \<Rightarrow> io_result) \<Rightarrow> u8 list \<Rightarrow> nat option \<Rightarrow> nat \<Rightarrow> string option \<Rightarrow> out_state
     \<Rightarrow> out_state \<times> (ub + u8)"
and walk ::
  "sorter \<Rightarrow> (nat \<Rightarrow> io_result) \<Rightarrow> u8 list \<Rightarrow> bool \<Rightarrow> nat \<Rightarrow> nat \<Rightarrow> u8 \<Rightarrow> PFS_CHUNK list
     \<Rightarrow> out_state \<Rightarrow> out_state \<times> (ub + PFS_CHUNK list)"
and section_body ::
  "sorter \<Rightarrow> (nat \<Rightarrow> io_result) \<Rightarrow> u8 list \<Rightarrow> bool \<Rightarrow> nat \<Rightarrow> PFS_SECTION_HEADER \<Rightarrow> u8
     \<Rightarrow> PFS_CHUNK list \<Rightarrow> out_state \<Rightarrow> out_state \<times> (ub + PFS_CHUNK list)"
where
  "pfs_extract srt env mem buffer bufferSize filename s =
     (case buffer of
        None \<Rightarrow> (say InputTooSmall s, Inr 1)
      | Some b \<Rightarrow>
          if bufferSize < FILE_HEADER_SIZE + FILE_FOOTER_SIZE then (say InputTooSmall s, Inr 1)
          else
            (case read_file_header mem b of
               None \<Rightarrow> (s, Inl OutOfBoundsRead)
             | Some fileHeader \<Rightarrow>
                 let isSubsection = (filename \<noteq> None);
                     s1 = say (FileHeaderInfo isSubsection (fh_Signature fileHeader)
                                 (fh_HeaderVersion fileHeader) (fh_DataSize fileHeader)) s
                 in
                 if fh_Signature fileHeader \<noteq> PFS_HEADER_SIGNATURE then
                   (say InvalidHeaderSignature s1, Inr 1)
                 else if fh_HeaderVersion fileHeader \<noteq> 1 then
                   (say (UnknownHeaderVersion (fh_HeaderVersion fileHeader)) s1, Inr 1)
                 else if bufferSize <
                     FILE_HEADER_SIZE + unat (fh_DataSize fileHeader) + FILE_FOOTER_SIZE then
                   (say FileTooSmallForImage s1, Inr 1)
                 else
                   (case read_file_footer mem
                           (b + FILE_HEADER_SIZE + unat (fh_DataSize fileHeader)) of
                      None \<Rightarrow> (s1, Inl OutOfBoundsRead)
                    | Some fileFooter \<Rightarrow>
                        let s2 = say (FileFooterInfo isSubsection (ff_Signature fileFooter)
                                        (ff_Checksum fileFooter) (ff_DataSize fileFooter)) s1;
                            s3 = (if ff_Signature fileFooter \<noteq> PFS_FOOTER_SIGNATURE
                                  then say InvalidFooterSignature s2 else s2);
                            s4 = (if ff_DataSize fileFooter \<noteq> fh_DataSize fileHeader
                                  then say (DataSizeMismatch (fh_DataSize fileHeader)
                                              (ff_DataSize fileFooter)) s3
                                  else s3);
                            dataEnd = b + FILE_HEADER_SIZE + unat (fh_DataSize fileHeader)
                        in finish_pass srt env filename
                             (walk srt env mem isSubsection dataEnd (b + FILE_HEADER_SIZE)
                                0 [] s4))))"
| "walk srt env mem isSubsection dataEnd sectionHeader sectionNum chunks s =
     (if sectionHeader < dataEnd then
        (case read_section_header mem sectionHeader of
           None \<Rightarrow> (s, Inl OutOfBoundsRead)
         | Some sh \<Rightarrow>
             (case section_body srt env mem isSubsection sectionHeader sh sectionNum chunks s of
                (s', Inl e) \<Rightarrow> (s', Inl e)
              | (s', Inr chunks') \<Rightarrow>
                  walk srt env mem isSubsection dataEnd
                    (sectionHeader + SECTION_HEADER_SIZE + blocks_size sh)
                    (sectionNum + 1) chunks' s'))
      else (s, Inr chunks))"
| "section_body srt env mem isSubsection sectionHeader sh sectionNum chunks s =
     (let s1 = say (SectionHeaderInfo isSubsection sectionNum
                      (guid_to_string (sh_Guid1 sh)) (guid_to_string (sh_Guid2 sh))
                      (sh_DataSize sh) (sh_DataSignatureSize sh)
                      (sh_MetadataSize sh) (sh_MetadataSignatureSize sh)) s
      in
      case decode_version sh s1 of (version, s2) \<Rightarrow>
      let ptr = sectionHeader + SECTION_HEADER_SIZE in
      if sh_DataSize sh \<noteq> 0 then
        (if isSubsection then
           (case collect_chunk mem ptr (unat (sh_DataSize sh)) of
              Inl e \<Rightarrow> (s2, Inl e)
            | Inr chunk \<Rightarrow>
                after_data env mem isSubsection sectionNum version ptr sh
                  (s2, Inr (chunks @ [chunk])))
         else
           (case write_file env (section_name sectionNum version ''data'')
                   (read_bytes mem ptr (unat (sh_DataSize sh))) s2 of
              (s3, Inl e) \<Rightarrow> (s3, Inl e)
            | (s3, Inr rc) \<Rightarrow>
                (case rd64 mem ptr of
                   None \<Rightarrow> (s3, Inl OutOfBoundsRead)
                 | Some sig \<Rightarrow>
                     if sig = PFS_HEADER_SIGNATURE then
                       (case pfs_extract srt env mem (Some ptr) (unat (sh_DataSize sh))
                               (Some (section_name sectionNum version ''payload'')) s3 of
                          (s4, Inl e) \<Rightarrow> (s4, Inl e)
                        | (s4, Inr rc') \<Rightarrow>
                            after_data env mem isSubsection sectionNum version ptr sh
                              (s4, Inr chunks))
                     else after_data env mem isSubsection sectionNum version ptr sh
                            (s3, Inr chunks))))
      else after_data env mem isSubsection sectionNum version ptr sh (s2, Inr chunks))"
  by pat_completeness auto
termination
  by (relation "inv_image (less_than <*lex*> less_than <*lex*> less_than)
     (\<lambda>x. case x of
        Inl (srt, env, mem, buffer, bufferSize, filename, s) \<Rightarrow>
          (if filename = None then 1 else 0, 2::nat, 0::nat)
      | Inr (Inl (srt, env, mem, isSubsection, dataEnd, sectionHeader, sectionNum, chunks, s)) \<Rightarrow>
          (if isSubsection then 0 else 1::nat, 1, dataEnd - sectionHeader)
      | Inr (Inr (srt, env, mem, isSubsection, sectionHeader, sh, sectionNum, chunks, s)) \<Rightarrow>
          (if isSubsection then 0 else 1, 0, 0))")
    (auto simp: SECTION_HEADER_SIZE_def)

declare pfs_extract.simps [simp del] walk.simps [simp del] section_body.simps [simp del]

text \<open>Source line 385: \<^verbatim>\<open>main\<close> hands the whole file to \<open>pfs_extract\<close> with a null name.\<close>

definition empty_out :: out_state where
  "empty_out = \<lparr> console = [], files = [] \<rparr>"

definition pfs_main :: "sorter \<Rightarrow> (nat \<Rightarrow> io_result) \<Rightarrow> u8 list \<Rightarrow> out_state \<times> (ub + u8)" where
  "pfs_main srt env mem = pfs_extract srt env mem (Some 0) (length mem) None empty_out"

section \<open>The two kinds of pass, written out\<close>

text \<open>
  The same program with the flag \<open>isSubsection\<close> fixed. \<open>validate\<close> is lines 148-203 of
  \<open>pfs_extract\<close>: it ends the call or gives the data region and the output so far.
  \<open>chunk_body\<close>, \<open>chunk_walk\<close> and \<open>chunk_pass\<close> are the loop body, the loop and the
  function for a non-null file name; \<open>normal_body\<close>, \<open>normal_walk\<close> and \<open>normal_pass\<close>
  are those for the null file name. Lemmas \<open>pfs_extract_subsection\<close> and
  \<open>pfs_extract_normal\<close> below prove that \<open>pfs_extract\<close> is one or the other.
\<close>

definition validate ::
  "u8 list \<Rightarrow> nat option \<Rightarrow> nat \<Rightarrow> bool \<Rightarrow> out_state
     \<Rightarrow> (out_state \<times> (ub + u8)) + (nat \<times> nat \<times> out_state)" where
  "validate mem buffer bufferSize isSubsection s =
     (case buffer of
        None \<Rightarrow> Inl (say InputTooSmall s, Inr 1)
      | Some b \<Rightarrow>
          if bufferSize < FILE_HEADER_SIZE + FILE_FOOTER_SIZE then Inl (say InputTooSmall s, Inr 1)
          else
            (case read_file_header mem b of
               None \<Rightarrow> Inl (s, Inl OutOfBoundsRead)
             | Some fileHeader \<Rightarrow>
                 let s1 = say (FileHeaderInfo isSubsection (fh_Signature fileHeader)
                                 (fh_HeaderVersion fileHeader) (fh_DataSize fileHeader)) s
                 in
                 if fh_Signature fileHeader \<noteq> PFS_HEADER_SIGNATURE then
                   Inl (say InvalidHeaderSignature s1, Inr 1)
                 else if fh_HeaderVersion fileHeader \<noteq> 1 then
                   Inl (say (UnknownHeaderVersion (fh_HeaderVersion fileHeader)) s1, Inr 1)
                 else if bufferSize <
                     FILE_HEADER_SIZE + unat (fh_DataSize fileHeader) + FILE_FOOTER_SIZE then
                   Inl (say FileTooSmallForImage s1, Inr 1)
                 else
                   (case read_file_footer mem
                           (b + FILE_HEADER_SIZE + unat (fh_DataSize fileHeader)) of
                      None \<Rightarrow> Inl (s1, Inl OutOfBoundsRead)
                    | Some fileFooter \<Rightarrow>
                        let s2 = say (FileFooterInfo isSubsection (ff_Signature fileFooter)
                                        (ff_Checksum fileFooter) (ff_DataSize fileFooter)) s1;
                            s3 = (if ff_Signature fileFooter \<noteq> PFS_FOOTER_SIGNATURE
                                  then say InvalidFooterSignature s2 else s2);
                            s4 = (if ff_DataSize fileFooter \<noteq> fh_DataSize fileHeader
                                  then say (DataSizeMismatch (fh_DataSize fileHeader)
                                              (ff_DataSize fileFooter)) s3
                                  else s3)
                        in Inr (b + FILE_HEADER_SIZE,
                                b + FILE_HEADER_SIZE + unat (fh_DataSize fileHeader), s4))))"

definition chunk_body ::
  "u8 list \<Rightarrow> nat \<Rightarrow> PFS_SECTION_HEADER \<Rightarrow> u8 \<Rightarrow> PFS_CHUNK list \<Rightarrow> out_state
     \<Rightarrow> out_state \<times> (ub + PFS_CHUNK list)" where
  "chunk_body mem sectionHeader sh sectionNum chunks s =
     (case decode_version sh
             (say (SectionHeaderInfo True sectionNum
                     (guid_to_string (sh_Guid1 sh)) (guid_to_string (sh_Guid2 sh))
                     (sh_DataSize sh) (sh_DataSignatureSize sh)
                     (sh_MetadataSize sh) (sh_MetadataSignatureSize sh)) s) of
        (version, s2) \<Rightarrow>
          if sh_DataSize sh \<noteq> 0 then
            (case collect_chunk mem (sectionHeader + SECTION_HEADER_SIZE)
                    (unat (sh_DataSize sh)) of
               Inl e \<Rightarrow> (s2, Inl e)
             | Inr chunk \<Rightarrow> (s2, Inr (chunks @ [chunk])))
          else (s2, Inr chunks))"

function chunk_walk ::
  "u8 list \<Rightarrow> nat \<Rightarrow> nat \<Rightarrow> u8 \<Rightarrow> PFS_CHUNK list \<Rightarrow> out_state
     \<Rightarrow> out_state \<times> (ub + PFS_CHUNK list)" where
  "chunk_walk mem dataEnd sectionHeader sectionNum chunks s =
     (if sectionHeader < dataEnd then
        (case read_section_header mem sectionHeader of
           None \<Rightarrow> (s, Inl OutOfBoundsRead)
         | Some sh \<Rightarrow>
             (case chunk_body mem sectionHeader sh sectionNum chunks s of
                (s', Inl e) \<Rightarrow> (s', Inl e)
              | (s', Inr chunks') \<Rightarrow>
                  chunk_walk mem dataEnd
                    (sectionHeader + SECTION_HEADER_SIZE + blocks_size sh)
                    (sectionNum + 1) chunks' s'))
      else (s, Inr chunks))"
  by pat_completeness auto
termination
  by (relation "measure (\<lambda>(mem, dataEnd, sectionHeader, sectionNum, chunks, s).
        dataEnd - sectionHeader)") (auto simp: SECTION_HEADER_SIZE_def)

declare chunk_walk.simps [simp del]

definition chunk_pass ::
  "sorter \<Rightarrow> (nat \<Rightarrow> io_result) \<Rightarrow> u8 list \<Rightarrow> nat option \<Rightarrow> nat \<Rightarrow> string \<Rightarrow> out_state
     \<Rightarrow> out_state \<times> (ub + u8)" where
  "chunk_pass srt env mem buffer bufferSize name s =
     (case validate mem buffer bufferSize True s of
        Inl r \<Rightarrow> r
      | Inr (dataStart, dataEnd, s4) \<Rightarrow>
          finish_pass srt env (Some name) (chunk_walk mem dataEnd dataStart 0 [] s4))"

definition normal_body ::
  "sorter \<Rightarrow> (nat \<Rightarrow> io_result) \<Rightarrow> u8 list \<Rightarrow> nat \<Rightarrow> PFS_SECTION_HEADER \<Rightarrow> u8
     \<Rightarrow> PFS_CHUNK list \<Rightarrow> out_state \<Rightarrow> out_state \<times> (ub + PFS_CHUNK list)" where
  "normal_body srt env mem sectionHeader sh sectionNum chunks s =
     (case decode_version sh
             (say (SectionHeaderInfo False sectionNum
                     (guid_to_string (sh_Guid1 sh)) (guid_to_string (sh_Guid2 sh))
                     (sh_DataSize sh) (sh_DataSignatureSize sh)
                     (sh_MetadataSize sh) (sh_MetadataSignatureSize sh)) s) of
        (version, s2) \<Rightarrow>
          let ptr = sectionHeader + SECTION_HEADER_SIZE in
          if sh_DataSize sh \<noteq> 0 then
            (case write_file env (section_name sectionNum version ''data'')
                    (read_bytes mem ptr (unat (sh_DataSize sh))) s2 of
               (s3, Inl e) \<Rightarrow> (s3, Inl e)
             | (s3, Inr rc) \<Rightarrow>
                 (case rd64 mem ptr of
                    None \<Rightarrow> (s3, Inl OutOfBoundsRead)
                  | Some sig \<Rightarrow>
                      if sig = PFS_HEADER_SIGNATURE then
                        (case chunk_pass srt env mem (Some ptr) (unat (sh_DataSize sh))
                                (section_name sectionNum version ''payload'') s3 of
                           (s4, Inl e) \<Rightarrow> (s4, Inl e)
                         | (s4, Inr rc') \<Rightarrow>
                             after_data env mem False sectionNum version ptr sh (s4, Inr chunks))
                      else after_data env mem False sectionNum version ptr sh (s3, Inr chunks)))
          else after_data env mem False sectionNum version ptr sh (s2, Inr chunks))"

function normal_walk ::
  "sorter \<Rightarrow> (nat \<Rightarrow> io_result) \<Rightarrow> u8 list \<Rightarrow> nat \<Rightarrow> nat \<Rightarrow> u8 \<Rightarrow> PFS_CHUNK list \<Rightarrow> out_state
     \<Rightarrow> out_state \<times> (ub + PFS_CHUNK list)" where
  "normal_walk srt env mem dataEnd sectionHeader sectionNum chunks s =
     (if sectionHeader < dataEnd then
        (case read_section_header mem sectionHeader of
           None \<Rightarrow> (s, Inl OutOfBoundsRead)
         | Some sh \<Rightarrow>
             (case normal_body srt env mem sectionHeader sh sectionNum chunks s of
                (s', Inl e) \<Rightarrow> (s', Inl e)
              | (s', Inr chunks') \<Rightarrow>
                  normal_walk srt env mem dataEnd
                    (sectionHeader + SECTION_HEADER_SIZE + blocks_size sh)
                    (sectionNum + 1) chunks' s'))
      else (s, Inr chunks))"
  by pat_completeness auto
termination
  by (relation "measure (\<lambda>(srt, env, mem, dataEnd, sectionHeader, sectionNum, chunks, s).
        dataEnd - sectionHeader)") (auto simp: SECTION_HEADER_SIZE_def)

declare normal_walk.simps [simp del]

definition normal_pass ::
  "sorter \<Rightarrow> (nat \<Rightarrow> io_result) \<Rightarrow> u8 list \<Rightarrow> nat option \<Rightarrow> nat \<Rightarrow> out_state
     \<Rightarrow> out_state \<times> (ub + u8)" where
  "normal_pass srt env mem buffer bufferSize s =
     (case validate mem buffer bufferSize False s of
        Inl r \<Rightarrow> r
      | Inr (dataStart, dataEnd, s4) \<Rightarrow>
          finish_pass srt env None (normal_walk srt env mem dataEnd dataStart 0 [] s4))"

section \<open>The loop variables after k iterations\<close>

text \<open>
  \<open>loop_iter k\<close> runs the loop body of \<open>walk\<close> k times from the loop variables
  \<open>(sectionHeader, sectionNum, chunks)\<close> and the output state, as \<open>walk\<close> does: it gives
  the variables with which iteration k (counted from 0) starts, and \<open>None\<close> when the
  loop has ended or stopped before.
\<close>

fun loop_iter ::
  "nat \<Rightarrow> sorter \<Rightarrow> (nat \<Rightarrow> io_result) \<Rightarrow> u8 list \<Rightarrow> bool \<Rightarrow> nat
     \<Rightarrow> nat \<times> u8 \<times> PFS_CHUNK list \<times> out_state
     \<Rightarrow> (nat \<times> u8 \<times> PFS_CHUNK list \<times> out_state) option" where
  "loop_iter 0 srt env mem isSubsection dataEnd st = Some st"
| "loop_iter (Suc k) srt env mem isSubsection dataEnd (sectionHeader, sectionNum, chunks, s) =
     (if sectionHeader < dataEnd then
        (case read_section_header mem sectionHeader of
           None \<Rightarrow> None
         | Some sh \<Rightarrow>
             (case section_body srt env mem isSubsection sectionHeader sh sectionNum chunks s of
                (s', Inl e) \<Rightarrow> None
              | (s', Inr chunks') \<Rightarrow>
                  loop_iter k srt env mem isSubsection dataEnd
                    (sectionHeader + SECTION_HEADER_SIZE + blocks_size sh,
                     sectionNum + 1, chunks', s')))
      else None)"

section \<open>The library's sort\<close>

text \<open>
  \<^verbatim>\<open>std::sort\<close> (source line 306) is library code. The C++ standard gives the contract
  \<open>sort_contract\<close>; the order of equal elements is left to the implementation. The
  definitions of this section follow one implementation, that of GNU libstdc++
  (\<^verbatim>\<open>bits/stl_algo.h\<close> and \<^verbatim>\<open>bits/stl_heap.h\<close>), with \<^verbatim>\<open>operator<\<close> of source line 141:
  \<^verbatim>\<open>std::__sort\<close> runs \<^verbatim>\<open>__introsort_loop\<close> with the depth limit \<open>2 * lg n\<close>, which
  partitions every range of more than 16 elements around the median of three and sorts
  a range by heap sort when the depth limit is used up, and then
  \<^verbatim>\<open>__final_insertion_sort\<close> over the whole vector. The vector is a list, an iterator is
  an index into it and a distance is a natural number (no distance is negative in
  these calls); \<open>lasti\<close> and \<open>cuti\<close> are the iterators \<^verbatim>\<open>__last\<close> and \<^verbatim>\<open>__cut\<close>. The loops
  that the library leaves unguarded (they stop at an element the caller has put in
  place) stop at the ends of the list here.
\<close>

definition chunk_less :: "PFS_CHUNK \<Rightarrow> PFS_CHUNK \<Rightarrow> bool" where
  "chunk_less lhs rhs = (orderNum lhs < orderNum rhs)"

definition iter_swap :: "PFS_CHUNK list \<Rightarrow> nat \<Rightarrow> nat \<Rightarrow> PFS_CHUNK list" where
  "iter_swap xs a b = xs[a := xs ! b, b := xs ! a]"

definition move_median_to_first ::
  "PFS_CHUNK list \<Rightarrow> nat \<Rightarrow> nat \<Rightarrow> nat \<Rightarrow> nat \<Rightarrow> PFS_CHUNK list" where
  "move_median_to_first xs result a b c =
     (if chunk_less (xs ! a) (xs ! b) then
        (if chunk_less (xs ! b) (xs ! c) then iter_swap xs result b
         else if chunk_less (xs ! a) (xs ! c) then iter_swap xs result c
         else iter_swap xs result a)
      else if chunk_less (xs ! a) (xs ! c) then iter_swap xs result a
      else if chunk_less (xs ! b) (xs ! c) then iter_swap xs result c
      else iter_swap xs result b)"

text \<open>
  The two inner loops of \<^verbatim>\<open>__unguarded_partition\<close>:
  \<^verbatim>\<open>while (*first < *pivot) ++first\<close> and \<^verbatim>\<open>while (*pivot < *last) --last\<close>.
\<close>

function scan_up :: "PFS_CHUNK list \<Rightarrow> nat \<Rightarrow> nat \<Rightarrow> nat" where
  "scan_up xs pivot first =
     (if first < length xs \<and> chunk_less (xs ! first) (xs ! pivot)
      then scan_up xs pivot (first + 1) else first)"
  by pat_completeness auto
termination
  by (relation "measure (\<lambda>(xs, pivot, first). length xs - first)") auto

function scan_down :: "PFS_CHUNK list \<Rightarrow> nat \<Rightarrow> nat \<Rightarrow> nat" where
  "scan_down xs pivot lasti =
     (if 0 < lasti \<and> chunk_less (xs ! pivot) (xs ! lasti)
      then scan_down xs pivot (lasti - 1) else lasti)"
  by pat_completeness auto
termination
  by (relation "measure (\<lambda>(xs, pivot, lasti). lasti)") auto

declare scan_up.simps [simp del] scan_down.simps [simp del]

function unguarded_partition ::
  "PFS_CHUNK list \<Rightarrow> nat \<Rightarrow> nat \<Rightarrow> nat \<Rightarrow> PFS_CHUNK list \<times> nat" where
  "unguarded_partition xs first lasti pivot =
     (let first' = scan_up xs pivot first;
          lasti' = scan_down xs pivot (lasti - 1)
      in if \<not> first' < lasti' then (xs, first')
         else unguarded_partition (iter_swap xs first' lasti') (first' + 1) lasti' pivot)"
  by pat_completeness auto
termination
proof (relation "measure (\<lambda>(xs, first, lasti, pivot). lasti)", goal_cases)
  case 1
  show ?case by simp
next
  case (2 xs first lasti pivot x xa)
  have "scan_down ys p l \<le> l" for ys p l
    by (induction ys p l rule: scan_down.induct) (subst scan_down.simps, auto)
  from this [of xs pivot "lasti - 1"] 2 show ?case by auto
qed

declare unguarded_partition.simps [simp del]

definition unguarded_partition_pivot ::
  "PFS_CHUNK list \<Rightarrow> nat \<Rightarrow> nat \<Rightarrow> PFS_CHUNK list \<times> nat" where
  "unguarded_partition_pivot xs first lasti =
     (let mid = first + (lasti - first) div 2
      in unguarded_partition (move_median_to_first xs first (first + 1) mid (lasti - 1))
           (first + 1) lasti first)"

text \<open>
  The heap sort of \<^verbatim>\<open>bits/stl_heap.h\<close>, which \<^verbatim>\<open>std::__partial_sort\<close> runs on a range: the
  positions of a heap are distances from \<open>first\<close>.
\<close>

function push_heap ::
  "PFS_CHUNK list \<Rightarrow> nat \<Rightarrow> nat \<Rightarrow> nat \<Rightarrow> PFS_CHUNK \<Rightarrow> PFS_CHUNK list" where
  "push_heap xs first holeIndex topIndex val =
     (let parent = (holeIndex - 1) div 2 in
      if topIndex < holeIndex \<and> chunk_less (xs ! (first + parent)) val
      then push_heap (xs[first + holeIndex := xs ! (first + parent)]) first parent topIndex val
      else xs[first + holeIndex := val])"
  by pat_completeness auto
termination
  by (relation "measure (\<lambda>(xs, first, holeIndex, topIndex, val). holeIndex)") auto

declare push_heap.simps [simp del]

function adjust_loop ::
  "PFS_CHUNK list \<Rightarrow> nat \<Rightarrow> nat \<Rightarrow> nat \<Rightarrow> nat \<Rightarrow> PFS_CHUNK list \<times> nat \<times> nat" where
  "adjust_loop xs first len holeIndex secondChild =
     (if secondChild < (len - 1) div 2 then
        (let c = 2 * (secondChild + 1);
             c' = (if chunk_less (xs ! (first + c)) (xs ! (first + (c - 1))) then c - 1 else c)
         in adjust_loop (xs[first + holeIndex := xs ! (first + c')]) first len c' c')
      else (xs, holeIndex, secondChild))"
  by pat_completeness auto
termination
  by (relation "measure (\<lambda>(xs, first, len, holeIndex, secondChild). len - secondChild)") auto

declare adjust_loop.simps [simp del]

definition adjust_heap ::
  "PFS_CHUNK list \<Rightarrow> nat \<Rightarrow> nat \<Rightarrow> nat \<Rightarrow> PFS_CHUNK \<Rightarrow> PFS_CHUNK list" where
  "adjust_heap xs first holeIndex len val =
     (case adjust_loop xs first len holeIndex holeIndex of
        (xs1, holeIndex1, secondChild1) \<Rightarrow>
          if len mod 2 = 0 \<and> secondChild1 = (len - 2) div 2 then
            (let c = 2 * (secondChild1 + 1)
             in push_heap (xs1[first + holeIndex1 := xs1 ! (first + (c - 1))]) first (c - 1)
                  holeIndex val)
          else push_heap xs1 first holeIndex1 holeIndex val)"

definition pop_heap :: "PFS_CHUNK list \<Rightarrow> nat \<Rightarrow> nat \<Rightarrow> nat \<Rightarrow> PFS_CHUNK list" where
  "pop_heap xs first lasti result =
     adjust_heap (xs[result := xs ! first]) first 0 (lasti - first) (xs ! result)"

function make_heap_loop :: "PFS_CHUNK list \<Rightarrow> nat \<Rightarrow> nat \<Rightarrow> nat \<Rightarrow> PFS_CHUNK list" where
  "make_heap_loop xs first len parent =
     (let xs1 = adjust_heap xs first parent len (xs ! (first + parent))
      in if parent = 0 then xs1 else make_heap_loop xs1 first len (parent - 1))"
  by pat_completeness auto
termination
  by (relation "measure (\<lambda>(xs, first, len, parent). parent)") auto

declare make_heap_loop.simps [simp del]

definition make_heap :: "PFS_CHUNK list \<Rightarrow> nat \<Rightarrow> nat \<Rightarrow> PFS_CHUNK list" where
  "make_heap xs first lasti =
     (if lasti - first < 2 then xs
      else make_heap_loop xs first (lasti - first) ((lasti - first - 2) div 2))"

function sort_heap :: "PFS_CHUNK list \<Rightarrow> nat \<Rightarrow> nat \<Rightarrow> PFS_CHUNK list" where
  "sort_heap xs first lasti =
     (if 1 < lasti - first
      then sort_heap (pop_heap xs first (lasti - 1) (lasti - 1)) first (lasti - 1)
      else xs)"
  by pat_completeness auto
termination
  by (relation "measure (\<lambda>(xs, first, lasti). lasti - first)") auto

declare sort_heap.simps [simp del]

definition heap_select :: "PFS_CHUNK list \<Rightarrow> nat \<Rightarrow> nat \<Rightarrow> nat \<Rightarrow> PFS_CHUNK list" where
  "heap_select xs first middle lasti =
     fold (\<lambda>i ys. if chunk_less (ys ! i) (ys ! first) then pop_heap ys first middle i else ys)
       [middle ..< lasti] (make_heap xs first middle)"

definition partial_sort :: "PFS_CHUNK list \<Rightarrow> nat \<Rightarrow> nat \<Rightarrow> nat \<Rightarrow> PFS_CHUNK list" where
  "partial_sort xs first middle lasti = sort_heap (heap_select xs first middle lasti) first middle"

text \<open>
  \<^verbatim>\<open>__introsort_loop\<close>: the depth limit goes down by one in every turn of the loop, in
  the recursive call for the upper part as in the next turn for the lower part.
\<close>

function introsort_loop ::
  "PFS_CHUNK list \<Rightarrow> nat \<Rightarrow> nat \<Rightarrow> nat \<Rightarrow> PFS_CHUNK list" where
  "introsort_loop xs first lasti depth_limit =
     (if 16 < lasti - first then
        (if depth_limit = 0 then partial_sort xs first lasti lasti
         else
           (case unguarded_partition_pivot xs first lasti of
              (xs1, cuti) \<Rightarrow>
                introsort_loop (introsort_loop xs1 cuti lasti (depth_limit - 1)) first cuti
                  (depth_limit - 1)))
      else xs)"
  by pat_completeness auto
termination
  by (relation "measure (\<lambda>(xs, first, lasti, depth_limit). depth_limit)") auto

declare introsort_loop.simps [simp del]

text \<open>
  \<^verbatim>\<open>__unguarded_linear_insert\<close> moves the element at \<open>lasti\<close> down past every greater
  element before it. \<^verbatim>\<open>__insertion_sort\<close> puts an element that is less than the first
  one in front of the range (\<^verbatim>\<open>std::move_backward\<close>) and inserts every other element
  with \<^verbatim>\<open>__unguarded_linear_insert\<close>.
\<close>

function unguarded_linear_insert ::
  "PFS_CHUNK list \<Rightarrow> nat \<Rightarrow> PFS_CHUNK \<Rightarrow> PFS_CHUNK list" where
  "unguarded_linear_insert xs lasti val =
     (if 0 < lasti \<and> chunk_less val (xs ! (lasti - 1))
      then unguarded_linear_insert (xs[lasti := xs ! (lasti - 1)]) (lasti - 1) val
      else xs[lasti := val])"
  by pat_completeness auto
termination
  by (relation "measure (\<lambda>(xs, lasti, val). lasti)") auto

declare unguarded_linear_insert.simps [simp del]

definition insertion_step :: "PFS_CHUNK list \<Rightarrow> nat \<Rightarrow> nat \<Rightarrow> PFS_CHUNK list" where
  "insertion_step xs first i =
     (if chunk_less (xs ! i) (xs ! first) then
        take first xs @ [xs ! i] @ take (i - first) (drop first xs) @ drop (i + 1) xs
      else unguarded_linear_insert xs i (xs ! i))"

definition insertion_sort :: "PFS_CHUNK list \<Rightarrow> nat \<Rightarrow> nat \<Rightarrow> PFS_CHUNK list" where
  "insertion_sort xs first lasti =
     (if first = lasti then xs
      else fold (\<lambda>i ys. insertion_step ys first i) [first + 1 ..< lasti] xs)"

definition unguarded_insertion_sort :: "PFS_CHUNK list \<Rightarrow> nat \<Rightarrow> nat \<Rightarrow> PFS_CHUNK list" where
  "unguarded_insertion_sort xs first lasti =
     fold (\<lambda>i ys. unguarded_linear_insert ys i (ys ! i)) [first ..< lasti] xs"

definition final_insertion_sort :: "PFS_CHUNK list \<Rightarrow> nat \<Rightarrow> nat \<Rightarrow> PFS_CHUNK list" where
  "final_insertion_sort xs first lasti =
     (if 16 < lasti - first then
        unguarded_insertion_sort (insertion_sort xs first (first + 16)) (first + 16) lasti
      else insertion_sort xs first lasti)"

text \<open>\<^verbatim>\<open>std::__lg\<close>: the position of the highest bit set.\<close>

fun lg :: "nat \<Rightarrow> nat" where
  "lg n = (if n < 2 then 0 else lg (n div 2) + 1)"

declare lg.simps [simp del]

definition std_sort :: sorter where
  "std_sort xs =
     (if xs \<noteq> [] then
        final_insertion_sort (introsort_loop xs 0 (length xs) (lg (length xs) * 2)) 0 (length xs)
      else xs)"

section \<open>The version decoder as the specification words it\<close>

text \<open>
  Section 4.3 of the specification, component by component: tag 'A' appends the
  uppercase hexadecimal value and a dot, tag 'N' the decimal value and a dot, a space
  or zero tag stops, any other tag is reported and skipped. An empty result is
  replaced by a single dot.
\<close>

fun spec_components :: "(u8 \<times> u16) list \<Rightarrow> string \<times> msg list" where
  "spec_components [] = ([], [])"
| "spec_components ((tag, v) # cs) =
     (if tag = 0x41 then
        (case spec_components cs of (str, ws) \<Rightarrow> (to_hex (unat v) @ ''.'' @ str, ws))
      else if tag = 0x4E then
        (case spec_components cs of (str, ws) \<Rightarrow> (to_dec (unat v) @ ''.'' @ str, ws))
      else if tag = 0x20 \<or> tag = 0 then ([], [])
      else (case spec_components cs of (str, ws) \<Rightarrow> (str, UnknownVersionType tag v # ws)))"

definition spec_version :: "(u8 \<times> u16) list \<Rightarrow> string \<times> msg list" where
  "spec_version cs =
     (case spec_components cs of (str, ws) \<Rightarrow> (if str = [] then ''.'' else str, ws))"

section \<open>Example images\<close>

text \<open>Little-endian encoders and the pieces of a PFS image, used to write test inputs.\<close>

definition enc16 :: "nat \<Rightarrow> u8 list" where
  "enc16 n = [word_of_nat (n mod 256), word_of_nat (n div 256 mod 256)]"

definition enc32 :: "nat \<Rightarrow> u8 list" where
  "enc32 n = [word_of_nat (n mod 256), word_of_nat (n div 256 mod 256),
              word_of_nat (n div 65536 mod 256), word_of_nat (n div 16777216 mod 256)]"

definition example_header :: "nat \<Rightarrow> u8 list" where
  "example_header dataSize = bytes_of ''PFS.HDR.'' @ enc32 1 @ enc32 dataSize"

definition example_footer :: "nat \<Rightarrow> u8 list" where
  "example_footer dataSize = enc32 dataSize @ enc32 0 @ bytes_of ''PFS.FTR.''"

text \<open>
  A section header with zero GUIDs: the four version tags, the four version values
  and the four block sizes.
\<close>

definition example_section :: "u8 list \<Rightarrow> nat list \<Rightarrow> nat \<Rightarrow> nat \<Rightarrow> nat \<Rightarrow> nat \<Rightarrow> u8 list" where
  "example_section tags vals dsz sgsz mdsz mssz =
     replicate 16 0 @ enc32 1 @ tags @ concat (map enc16 vals) @ replicate 8 0 @
     enc32 dsz @ enc32 sgsz @ enc32 mdsz @ enc32 mssz @ replicate 16 0"

definition blank_guid :: EFI_GUID where
  "blank_guid = \<lparr> Data1 = 0, Data2 = 0, Data3 = 0, Data4 = [0, 0, 0, 0, 0, 0, 0, 0] \<rparr>"

definition blank_section_header :: PFS_SECTION_HEADER where
  "blank_section_header =
     \<lparr> sh_Guid1 = blank_guid, sh_HeaderVersion = 0, sh_VersionType = [0, 0, 0, 0],
       sh_Version = [0, 0, 0, 0], sh_Reserved = 0, sh_DataSize = 0,
       sh_DataSignatureSize = 0, sh_MetadataSize = 0, sh_MetadataSignatureSize = 0,
       sh_Guid2 = blank_guid \<rparr>"

text \<open>A file system on which every write succeeds, and a stable sort by order number.\<close>

definition env_ok :: "nat \<Rightarrow> io_result" where
  "env_ok k = IoOk"

definition stable_sort :: sorter where
  "stable_sort = sort_key orderNum"

text \<open>
  Thirty-two bytes with a zero magic, version 0 and a header data size of 1: one byte
  too short for the image its header declares.
\<close>

definition bad_magic_image :: "u8 list" where
  "bad_magic_image = replicate 12 0 @ enc32 1 @ replicate 16 0"

text \<open>
  Thirty-two bytes with the header magic, header version 2 and a header data size of 1:
  one byte too short for the image its header declares.
\<close>

definition short_bad_version_image :: "u8 list" where
  "short_bad_version_image = bytes_of ''PFS.HDR.'' @ enc32 2 @ enc32 1 @ replicate 16 0"

text \<open>
  Thirty-two bytes with a valid header that declares 100 bytes of data: too short for
  the image.
\<close>

definition short_image :: "u8 list" where
  "short_image = example_header 100 @ replicate 16 0"


text \<open>
  A top-level image whose only section declares 4096 bytes of data; the buffer ends 16
  bytes after the section header.
\<close>

definition overrun_image :: "u8 list" where
  "overrun_image =
     example_header 72 @ example_section [0, 0, 0, 0] [0, 0, 0, 0] 4096 0 0 0 @
     example_footer 72"


text \<open>
  A subsection chunk: 0x248 leading bytes with the order number at offset 0x3E, then
  the payload.
\<close>

definition example_chunk :: "nat \<Rightarrow> u8 list \<Rightarrow> u8 list" where
  "example_chunk orderNumber payload =
     replicate 0x3E 0 @ enc16 orderNumber @ replicate 0x208 0 @ payload"

text \<open>A container of two chunks, stored in the order 1, 0.\<close>

definition two_chunk_image :: "u8 list" where
  "two_chunk_image =
     example_header 1316 @
     example_section [0, 0, 0, 0] [0, 0, 0, 0] 586 0 0 0 @ example_chunk 1 (bytes_of ''BB'') @
     example_section [0, 0, 0, 0] [0, 0, 0, 0] 586 0 0 0 @ example_chunk 0 (bytes_of ''AA'') @
     example_footer 1316"

text \<open>
  A container of one chunk whose header declares a data region of 100 bytes: the data
  region ends inside the chunk, 84 bytes after the start of the section header.
\<close>

definition truncated_chunk_image :: "u8 list" where
  "truncated_chunk_image =
     example_header 100 @
     example_section [0, 0, 0, 0] [0, 0, 0, 0] 586 0 0 0 @ example_chunk 7 (bytes_of ''ZZ'') @
     example_footer 100"


text \<open>A container of two chunks that carry the same order number 1.\<close>

definition tie_chunk_image :: "u8 list" where
  "tie_chunk_image =
     example_header 1316 @
     example_section [0, 0, 0, 0] [0, 0, 0, 0] 586 0 0 0 @ example_chunk 1 (bytes_of ''AA'') @
     example_section [0, 0, 0, 0] [0, 0, 0, 0] 586 0 0 0 @ example_chunk 1 (bytes_of ''BB'') @
     example_footer 1316"

text \<open>
  A container of 17 chunks that all carry the order number 1; the payload of the k-th
  chunk is the k-th letter of the alphabet.
\<close>

definition tied_chunk :: "u8 \<Rightarrow> u8 list" where
  "tied_chunk p = example_section [0, 0, 0, 0] [0, 0, 0, 0] 585 0 0 0 @ example_chunk 1 [p]"

definition tied_chunks_image :: "u8 list" where
  "tied_chunks_image =
     example_header 11169 @ concat (map tied_chunk (bytes_of ''ABCDEFGHIJKLMNOPQ'')) @
     example_footer 11169"

text \<open>The chunks collected from such a container, one for every payload byte.\<close>

definition tied_chunks :: "string \<Rightarrow> PFS_CHUNK list" where
  "tied_chunks payloads = map (\<lambda>p. \<lparr> data = [p], orderNum = 1 \<rparr>) (bytes_of payloads)"

text \<open>
  A container nested two levels deep. The innermost container has a data region of
  eight empty sections; it is the data block of the only section of the middle
  container, which is the data block of the only section of the outer container.
\<close>

definition innermost_image :: "u8 list" where
  "innermost_image = example_header 576 @ replicate 576 0 @ example_footer 576"

definition middle_image :: "u8 list" where
  "middle_image =
     example_header 680 @ example_section [0, 0, 0, 0] [0, 0, 0, 0] 608 0 0 0 @
     innermost_image @ example_footer 680"

definition deep_image :: "u8 list" where
  "deep_image =
     example_header 784 @ example_section [0, 0, 0, 0] [0, 0, 0, 0] 712 0 0 0 @
     middle_image @ example_footer 784"

text \<open>
  A nested container: the outer section's data block is a container whose only
  section has no data and a one-byte data signature.
\<close>

definition inner_image :: "u8 list" where
  "inner_image =
     example_header 73 @ example_section [0, 0, 0, 0] [0, 0, 0, 0] 0 1 0 0 @ [0xAA] @
     example_footer 73"

definition nested_image :: "u8 list" where
  "nested_image =
     example_header 177 @ example_section [0, 0, 0, 0] [0, 0, 0, 0] 105 0 0 0 @
     inner_image @ example_footer 177"

definition nested_section_header :: PFS_SECTION_HEADER where
  "nested_section_header = blank_section_header\<lparr> sh_HeaderVersion := 1, sh_DataSize := 105 \<rparr>"

text \<open>
  A section whose data block starts with the header magic and is no valid container:
  its header version is 0.
\<close>

definition bad_version_block :: "u8 list" where
  "bad_version_block = bytes_of ''PFS.HDR.'' @ replicate 24 0"

definition failed_nested_image :: "u8 list" where
  "failed_nested_image =
     example_header 104 @ example_section [0, 0, 0, 0] [0, 0, 0, 0] 32 0 0 0 @
     bad_version_block @ example_footer 104"

text \<open>
  A section with a data signature of 100 bytes whose data block is a container with one
  chunk of 10 bytes, fewer than the 0x248 bytes a chunk has before its payload.
\<close>

definition short_chunk_inner :: "u8 list" where
  "short_chunk_inner =
     example_header 82 @ example_section [0, 0, 0, 0] [0, 0, 0, 0] 10 0 0 0 @ replicate 10 0 @
     example_footer 82"

definition short_chunk_image :: "u8 list" where
  "short_chunk_image =
     example_header 286 @ example_section [0, 0, 0, 0] [0, 0, 0, 0] 114 100 0 0 @
     short_chunk_inner @ replicate 100 0x55 @ example_footer 286"

text \<open>The line printed for a section header (source lines 211-221).\<close>

abbreviation section_info :: "bool \<Rightarrow> u8 \<Rightarrow> PFS_SECTION_HEADER \<Rightarrow> msg" where
  "section_info isSubsection sectionNum sh \<equiv>
     SectionHeaderInfo isSubsection sectionNum
       (guid_to_string (sh_Guid1 sh)) (guid_to_string (sh_Guid2 sh))
       (sh_DataSize sh) (sh_DataSignatureSize sh)
       (sh_MetadataSize sh) (sh_MetadataSignatureSize sh)"

text \<open>A file system that cannot create the first file and cannot write the second.\<close>

definition fail_first :: "nat \<Rightarrow> io_result" where
  "fail_first k = (if k = 0 then CreateFailed else if k = 1 then WriteFailed else IoOk)"

text \<open>
  A container with one section of one data byte, whose footer has the magic
  "PFS.XXX." and the data size 5 where the header says 73.
\<close>

definition bad_footer_image :: "u8 list" where
  "bad_footer_image =
     example_header 73 @ example_section [0, 0, 0, 0] [0, 0, 0, 0] 1 0 0 0 @ [0x5A] @
     enc32 5 @ enc32 0 @ bytes_of ''PFS.XXX.''"

text \<open>
  What a pass prints before its walk (source lines 158-201): the two banners, then
  the footer warnings.
\<close>

definition pass_banner :: "bool \<Rightarrow> PFS_FILE_HEADER \<Rightarrow> PFS_FILE_FOOTER \<Rightarrow> msg list" where
  "pass_banner isSubsection fh ff =
     [FileHeaderInfo isSubsection (fh_Signature fh) (fh_HeaderVersion fh) (fh_DataSize fh),
      FileFooterInfo isSubsection (ff_Signature ff) (ff_Checksum ff) (ff_DataSize ff)]"

definition footer_warnings :: "PFS_FILE_HEADER \<Rightarrow> PFS_FILE_FOOTER \<Rightarrow> msg list" where
  "footer_warnings fh ff =
     (if ff_Signature ff \<noteq> PFS_FOOTER_SIGNATURE then [InvalidFooterSignature] else []) @
     (if ff_DataSize ff \<noteq> fh_DataSize fh
      then [DataSizeMismatch (fh_DataSize fh) (ff_DataSize ff)] else [])"

text \<open>
  A container of 257 sections: a section with one data byte, 255 sections whose
  headers are all zero (no blocks), and a section with one data byte.
\<close>

definition one_byte_section :: "u8 \<Rightarrow> u8 list" where
  "one_byte_section x = example_section [0, 0, 0, 0] [0, 0, 0, 0] 1 0 0 0 @ [x]"

definition many_sections_image :: "u8 list" where
  "many_sections_image =
     (example_header 18506 @ one_byte_section 0x11) @ replicate 18360 0 @
     (one_byte_section 0x22 @ example_footer 18506)"

definition one_byte_section_header :: PFS_SECTION_HEADER where
  "one_byte_section_header = blank_section_header\<lparr> sh_HeaderVersion := 1, sh_DataSize := 1 \<rparr>"

text \<open>The calls of the output sink without their return values.\<close>

definition sink_calls :: "out_state \<Rightarrow> (string \<times> u8 list option) list" where
  "sink_calls s = map (\<lambda>(name, buf, rc). (name, buf)) (files s)"




section \<open>Properties\<close>

subsection \<open>Evaluation\<close>

lemma replicate_numeral_eval:
  "replicate (numeral k) x = x # replicate (pred_numeral k) x"
  by (simp add: numeral_eq_Suc)

lemma replicate_small_eval:
  "numeral k \<le> (128::nat) \<Longrightarrow> replicate (numeral k) x = x # replicate (pred_numeral k) x"
  by (simp add: numeral_eq_Suc)

lemmas pfs_eval0 =
  pfs_main_def pfs_extract.simps walk.simps section_body.simps
  read_file_header_def read_file_footer_def read_section_header_def read_bytes_def
  FILE_HEADER_SIZE_def FILE_FOOTER_SIZE_def SECTION_HEADER_SIZE_def
  le16_def le32_def le64_def word_rcat_def rd16_def rd64_def bytes_of_def parse_guid_def
  PFS_HEADER_SIGNATURE_def PFS_FOOTER_SIGNATURE_def
  say_def empty_out_def finish_pass_def decode_version_def version_loop.simps
  after_data_def emit_rest_def emit_block_def write_file_def collect_chunk_def
  blocks_size_def section_name_def guid_to_string_def hex_pad_def to_hex.simps to_dec.simps
  hex_digit_def Let_def enc16_def enc32_def env_ok_def
  example_header_def example_footer_def example_section_def
  blank_guid_def blank_section_header_def

lemmas pfs_eval = replicate_numeral_eval pfs_eval0

subsection \<open>The version decoder\<close>

lemma version_loop_spec:
  "length vt = 4 \<Longrightarrow> length vv = 4 \<Longrightarrow>
   version_loop vt vv i version out =
     (version @ fst (spec_components (drop i (zip vt vv))),
      out @ snd (spec_components (drop i (zip vt vv))))"
proof (induction vt vv i version out rule: version_loop.induct)
  case (1 vt vv i version out)
  show ?case
  proof (cases "i < 4")
    case False
    with 1(4,5) show ?thesis by (subst version_loop.simps) simp
  next
    case True
    with 1(4,5) have d: "drop i (zip vt vv) = (vt ! i, vv ! i) # drop (i + 1) (zip vt vv)"
      by (simp add: Cons_nth_drop_Suc [symmetric])
    consider (A) "vt ! i = 0x41" | (N) "vt ! i \<noteq> 0x41" "vt ! i = 0x4E"
      | (stop) "vt ! i \<noteq> 0x41" "vt ! i \<noteq> 0x4E" "vt ! i = 0x20 \<or> vt ! i = 0"
      | (other) "vt ! i \<noteq> 0x41" "vt ! i \<noteq> 0x4E" "\<not> (vt ! i = 0x20 \<or> vt ! i = 0)"
      by blast
    then show ?thesis
    proof cases
      case A
      with True 1(1,4,5) show ?thesis
        by (subst version_loop.simps) (simp add: d split: prod.splits)
    next
      case N
      with True 1(2,4,5) show ?thesis
        by (subst version_loop.simps) (simp add: d split: prod.splits)
    next
      case stop
      with True show ?thesis
        by (subst version_loop.simps) (auto simp add: d split: prod.splits)
    next
      case other
      with True 1(3,4,5) show ?thesis
        by (subst version_loop.simps) (simp add: d split: prod.splits)
    qed
  qed
qed

lemma decode_version_files [simp]: "files (snd (decode_version sh s)) = files s"
  by (simp add: decode_version_def split: prod.splits)

lemma read_section_header_lengths:
  "read_section_header mem a = Some sh \<Longrightarrow>
   length (sh_VersionType sh) = 4 \<and> length (sh_Version sh) = 4"
  by (auto simp: read_section_header_def read_bytes_def SECTION_HEADER_SIZE_def
      split: option.splits if_splits)

text \<open>
  C3. For a section header with four version tags and four version values, the
  decoder of the source (lines 226-252) returns the string the specification
  describes: components are taken left to right, 'A' appends the uppercase
  hexadecimal value and a dot, 'N' the decimal value and a dot, a space or zero tag
  stops with the later components ignored, any other tag prints the unknown-type
  message and is skipped; the printed messages are those warnings, followed by the
  version line when the string is not empty; an empty string becomes a single dot; no
  file is written. The tags ('A',2),(' ',0),('N',10),('A',5) give "2." and the tags
  ('A',2),('N',10),(0,0),('A',1) give "2.10.".
\<close>

theorem version_decoder_follows_spec:
  assumes "length (sh_VersionType sh) = 4" and "length (sh_Version sh) = 4"
  shows "fst (decode_version sh s) = fst (spec_version (zip (sh_VersionType sh) (sh_Version sh))) \<and>
         console (snd (decode_version sh s)) =
           console s @ snd (spec_version (zip (sh_VersionType sh) (sh_Version sh))) @
           (if fst (spec_components (zip (sh_VersionType sh) (sh_Version sh))) = [] then []
            else [VersionInfo (fst (spec_version (zip (sh_VersionType sh) (sh_Version sh))))]) \<and>
         files (snd (decode_version sh s)) = files s \<and>
         fst (decode_version
                (sh\<lparr> sh_VersionType := [0x41, 0x20, 0x4E, 0x41], sh_Version := [2, 0, 10, 5] \<rparr>) s)
           = ''2.'' \<and>
         fst (decode_version
                (sh\<lparr> sh_VersionType := [0x41, 0x4E, 0, 0x41], sh_Version := [2, 10, 0, 1] \<rparr>) s)
           = ''2.10.''"
proof -
  have general:
    "decode_version sh s =
       (fst (spec_version (zip (sh_VersionType sh) (sh_Version sh))),
        s\<lparr> console := console s @ snd (spec_version (zip (sh_VersionType sh) (sh_Version sh))) @
           (if fst (spec_components (zip (sh_VersionType sh) (sh_Version sh))) = [] then []
            else [VersionInfo (fst (spec_version (zip (sh_VersionType sh) (sh_Version sh))))]) \<rparr>)"
    using assms
    by (simp add: decode_version_def version_loop_spec spec_version_def split: prod.splits)
  have ex1: "fst (decode_version
                (sh\<lparr> sh_VersionType := [0x41, 0x20, 0x4E, 0x41], sh_Version := [2, 0, 10, 5] \<rparr>) s)
           = ''2.''"
    by (simp add: decode_version_def version_loop.simps to_hex.simps to_dec.simps hex_digit_def)
  have ex2: "fst (decode_version
                (sh\<lparr> sh_VersionType := [0x41, 0x4E, 0, 0x41], sh_Version := [2, 10, 0, 1] \<rparr>) s)
           = ''2.10.''"
    by (simp add: decode_version_def version_loop.simps to_hex.simps to_dec.simps hex_digit_def)
  from general ex1 ex2 show ?thesis by simp
qed

theorem version_decoder_follows_spec_witness:
  "fst (decode_version
          (blank_section_header\<lparr> sh_VersionType := [0x41, 0x99, 0x4E, 0],
                                  sh_Version := [0xAB, 7, 300, 9] \<rparr>) empty_out) = ''AB.300.'' \<and>
   console (snd (decode_version
          (blank_section_header\<lparr> sh_VersionType := [0x41, 0x99, 0x4E, 0],
                                  sh_Version := [0xAB, 7, 300, 9] \<rparr>) empty_out))
     = [UnknownVersionType 0x99 7, VersionInfo ''AB.300.''] \<and>
   fst (decode_version
          (blank_section_header\<lparr> sh_VersionType := [0x20, 0x41, 0x41, 0x41] \<rparr>) empty_out) = ''.''"
  using version_decoder_follows_spec
    [of "blank_section_header\<lparr> sh_VersionType := [0x41, 0x99, 0x4E, 0],
                                 sh_Version := [0xAB, 7, 300, 9] \<rparr>" empty_out]
    version_decoder_follows_spec
    [of "blank_section_header\<lparr> sh_VersionType := [0x20, 0x41, 0x41, 0x41] \<rparr>" empty_out]
  by (simp add: spec_version_def to_hex.simps to_dec.simps hex_digit_def empty_out_def
      blank_section_header_def)

subsection \<open>The fixed-size string buffers are large enough\<close>

lemma to_hex_length: "n < 65536 \<Longrightarrow> length (to_hex n) \<le> 4"
proof -
  assume n: "n < 65536"
  have d1: "length (to_hex m) = 1" if "m < 16" for m
    using that by (subst to_hex.simps) simp
  have d2: "length (to_hex m) \<le> 2" if "m < 256" for m
    using that d1 [of "m div 16"] by (subst to_hex.simps) (auto simp: d1)
  have d3: "length (to_hex m) \<le> 3" if "m < 4096" for m
    using that d2 [of "m div 16"] by (subst to_hex.simps) (auto simp: d1)
  show ?thesis
    using n d3 [of "n div 16"] by (subst to_hex.simps) (auto simp: d1)
qed

lemma to_dec_length: "n < 65536 \<Longrightarrow> length (to_dec n) \<le> 5"
proof -
  assume n: "n < 65536"
  have d1: "length (to_dec m) = 1" if "m < 10" for m
    using that by (subst to_dec.simps) simp
  have d2: "length (to_dec m) \<le> 2" if "m < 100" for m
    using that d1 [of "m div 10"] by (subst to_dec.simps) (auto simp: d1)
  have d3: "length (to_dec m) \<le> 3" if "m < 1000" for m
    using that d2 [of "m div 10"] by (subst to_dec.simps) (auto simp: d1)
  have d4: "length (to_dec m) \<le> 4" if "m < 10000" for m
    using that d3 [of "m div 10"] by (subst to_dec.simps) (auto simp: d1)
  show ?thesis
    using n d4 [of "n div 10"] by (subst to_dec.simps) (auto simp: d1)
qed

lemma to_dec_length_u8: "n < 256 \<Longrightarrow> length (to_dec n) \<le> 3"
proof -
  assume n: "n < 256"
  have d1: "length (to_dec m) = 1" if "m < 10" for m
    using that by (subst to_dec.simps) simp
  have d2: "length (to_dec m) \<le> 2" if "m < 100" for m
    using that d1 [of "m div 10"] by (subst to_dec.simps) (auto simp: d1)
  show ?thesis
    using n d2 [of "n div 10"] by (subst to_dec.simps) (auto simp: d1)
qed

lemma spec_components_length:
  "length (fst (spec_components cs)) \<le> 6 * length cs"
proof (induction cs)
  case Nil
  then show ?case by simp
next
  case (Cons c cs)
  obtain tag v where c: "c = (tag, v)" by (cases c) auto
  have "unat v < 65536" using unsigned_less [of v, where ?'a = nat] by simp
  from to_hex_length [OF this] to_dec_length [OF this] Cons.IH c show ?case
    by (auto split: prod.splits)
qed

lemma version_buffer_suffices:
  assumes "length (sh_VersionType sh) = 4" and "length (sh_Version sh) = 4"
  shows "length (fst (decode_version sh s)) < 30"
proof -
  have "decode_version sh s =
      (case version_loop (sh_VersionType sh) (sh_Version sh) 0 [] [] of
        (version, out) \<Rightarrow>
          if version \<noteq> [] then
            (version, s\<lparr> console := console s @ out @ [VersionInfo version] \<rparr>)
          else (''.'', s\<lparr> console := console s @ out \<rparr>))"
    by (simp add: decode_version_def)
  moreover have "length (fst (spec_components (zip (sh_VersionType sh) (sh_Version sh)))) \<le> 24"
    using spec_components_length [of "zip (sh_VersionType sh) (sh_Version sh)"] assms by simp
  ultimately show ?thesis
    using assms by (simp add: version_loop_spec split: prod.splits)
qed

lemma filename_buffer_suffices:
  assumes "length (sh_VersionType sh) = 4" and "length (sh_Version sh) = 4"
      and "ext \<in> {''data'', ''payload'', ''sign'', ''meta'', ''mtsg''}"
  shows "length (section_name sectionNum (fst (decode_version sh s)) ext) < 240"
proof -
  have "unat sectionNum < 256" using unsigned_less [of sectionNum, where ?'a = nat] by simp
  from to_dec_length_u8 [OF this] version_buffer_suffices [OF assms(1,2), of s] assms(3)
  show ?thesis by (auto simp: section_name_def)
qed

subsection \<open>Container validation\<close>

text \<open>
  C4 (as amended). A buffer that is shorter than header, declared data size and footer
  together makes \<open>pfs_extract\<close> return 1 with no call of the output sink. The failure
  printed last is one of the two "too small" messages when the buffer is shorter than
  header plus footer, or when the header's magic and version are valid. Otherwise the
  header is reported first (lines 165-174 come before the size check of line 177): the
  message printed last is the invalid header signature when the magic is wrong, and
  the unknown header version when the magic is right and the version is not 1.
\<close>

theorem too_small_fails_without_output:
  assumes "bufferSize < FILE_HEADER_SIZE + FILE_FOOTER_SIZE \<or>
           (\<exists>fh. read_file_header mem b = Some fh \<and>
              bufferSize < FILE_HEADER_SIZE + unat (fh_DataSize fh) + FILE_FOOTER_SIZE)"
  shows "snd (pfs_extract srt env mem (Some b) bufferSize filename s) = Inr 1 \<and>
         files (fst (pfs_extract srt env mem (Some b) bufferSize filename s)) = files s \<and>
         (bufferSize < FILE_HEADER_SIZE + FILE_FOOTER_SIZE \<or>
          (\<exists>fh. read_file_header mem b = Some fh \<and> fh_Signature fh = PFS_HEADER_SIGNATURE \<and>
             fh_HeaderVersion fh = 1)
          \<longrightarrow> last (console (fst (pfs_extract srt env mem (Some b) bufferSize filename s)))
                \<in> {InputTooSmall, FileTooSmallForImage}) \<and>
         (\<forall>fh. \<not> bufferSize < FILE_HEADER_SIZE + FILE_FOOTER_SIZE \<and>
             read_file_header mem b = Some fh \<and> fh_Signature fh \<noteq> PFS_HEADER_SIGNATURE
          \<longrightarrow> last (console (fst (pfs_extract srt env mem (Some b) bufferSize filename s)))
                = InvalidHeaderSignature) \<and>
         (\<forall>fh. \<not> bufferSize < FILE_HEADER_SIZE + FILE_FOOTER_SIZE \<and>
             read_file_header mem b = Some fh \<and> fh_Signature fh = PFS_HEADER_SIGNATURE \<and>
             fh_HeaderVersion fh \<noteq> 1
          \<longrightarrow> last (console (fst (pfs_extract srt env mem (Some b) bufferSize filename s)))
                = UnknownHeaderVersion (fh_HeaderVersion fh))"
  using assms
  by (subst (1 2 3 4 5) pfs_extract.simps) (auto simp: say_def Let_def)

lemma short_image_header:
  "read_file_header short_image 0 =
     Some \<lparr> fh_Signature = PFS_HEADER_SIGNATURE, fh_HeaderVersion = 1, fh_DataSize = 100 \<rparr>"
  by (simp add: pfs_eval short_image_def)

lemma bad_magic_image_header:
  "read_file_header bad_magic_image 0 =
     Some \<lparr> fh_Signature = 0, fh_HeaderVersion = 0, fh_DataSize = 1 \<rparr>"
  by (simp add: pfs_eval bad_magic_image_def)

lemma short_bad_version_image_header:
  "read_file_header short_bad_version_image 0 =
     Some \<lparr> fh_Signature = PFS_HEADER_SIGNATURE, fh_HeaderVersion = 2, fh_DataSize = 1 \<rparr>"
  by (simp add: pfs_eval short_bad_version_image_def)

theorem too_small_fails_without_output_witness:
  "snd (pfs_extract stable_sort env_ok (replicate 20 0) (Some 0) 20 None empty_out) = Inr 1 \<and>
   files (fst (pfs_extract stable_sort env_ok (replicate 20 0) (Some 0) 20 None empty_out)) = [] \<and>
   last (console (fst (pfs_extract stable_sort env_ok (replicate 20 0) (Some 0) 20 None empty_out)))
     \<in> {InputTooSmall, FileTooSmallForImage} \<and>
   snd (pfs_extract stable_sort env_ok short_image (Some 0) 32 None empty_out) = Inr 1 \<and>
   files (fst (pfs_extract stable_sort env_ok short_image (Some 0) 32 None empty_out)) = [] \<and>
   last (console (fst (pfs_extract stable_sort env_ok short_image (Some 0) 32 None empty_out)))
     \<in> {InputTooSmall, FileTooSmallForImage} \<and>
   snd (pfs_extract stable_sort env_ok bad_magic_image (Some 0) 32 None empty_out) = Inr 1 \<and>
   files (fst (pfs_extract stable_sort env_ok bad_magic_image (Some 0) 32 None empty_out)) = [] \<and>
   last (console (fst (pfs_extract stable_sort env_ok bad_magic_image (Some 0) 32 None empty_out)))
     = InvalidHeaderSignature \<and>
   snd (pfs_extract stable_sort env_ok short_bad_version_image (Some 0) 32 None empty_out) = Inr 1 \<and>
   files (fst (pfs_extract stable_sort env_ok short_bad_version_image (Some 0) 32 None empty_out))
     = [] \<and>
   last (console (fst (pfs_extract stable_sort env_ok short_bad_version_image (Some 0) 32 None
     empty_out))) = UnknownHeaderVersion 2"
  using too_small_fails_without_output
    [of 20 "replicate 20 0" 0 stable_sort env_ok None empty_out]
    too_small_fails_without_output
    [of 32 short_image 0 stable_sort env_ok None empty_out]
    too_small_fails_without_output
    [of 32 bad_magic_image 0 stable_sort env_ok None empty_out]
    too_small_fails_without_output
    [of 32 short_bad_version_image 0 stable_sort env_ok None empty_out]
    short_image_header bad_magic_image_header short_bad_version_image_header
  by (simp add: FILE_HEADER_SIZE_def FILE_FOOTER_SIZE_def empty_out_def PFS_HEADER_SIGNATURE_def
      le64_def word_rcat_def bytes_of_def)

text \<open>
  The claim as stated fails on \<open>bad_magic_image\<close>: the buffer is shorter than its
  header declares, and the failure reported is the invalid header signature.
\<close>

theorem too_small_reports_bad_magic_counterexample:
  "length bad_magic_image < FILE_HEADER_SIZE + 1 + FILE_FOOTER_SIZE \<and>
   map_option fh_DataSize (read_file_header bad_magic_image 0) = Some 1 \<and>
   pfs_main stable_sort env_ok bad_magic_image =
     (\<lparr> console = [FileHeaderInfo False 0 0 1, InvalidHeaderSignature], files = [] \<rparr>, Inr 1)"
  by (simp add: pfs_eval bad_magic_image_def)

subsection \<open>The function is one of the two passes\<close>

lemma pfs_extract_validate:
  "pfs_extract srt env mem buffer bufferSize filename s =
     (case validate mem buffer bufferSize (filename \<noteq> None) s of
        Inl r \<Rightarrow> r
      | Inr (dataStart, dataEnd, s4) \<Rightarrow>
          finish_pass srt env filename
            (walk srt env mem (filename \<noteq> None) dataEnd dataStart 0 [] s4))"
  by (subst pfs_extract.simps) (simp add: validate_def Let_def split: option.splits)

lemma emit_block_subsection [simp]:
  "emit_block env mem True filename ptr sz s = (s, Inr ())"
  by (simp add: emit_block_def)

lemma emit_rest_subsection [simp]:
  "emit_rest env mem True sectionNum version ptr sh s = (s, Inr ())"
  by (simp add: emit_rest_def)

lemma after_data_subsection [simp]:
  "after_data env mem True sectionNum version ptr sh w = w"
  by (simp add: after_data_def split: prod.splits sum.splits)

lemma section_body_subsection:
  "section_body srt env mem True sectionHeader sh sectionNum chunks s =
     chunk_body mem sectionHeader sh sectionNum chunks s"
  by (subst section_body.simps)
     (simp add: chunk_body_def Let_def split: option.splits sum.splits prod.splits)

lemma walk_subsection:
  "walk srt env mem True dataEnd sectionHeader sectionNum chunks s =
     chunk_walk mem dataEnd sectionHeader sectionNum chunks s"
proof (induction mem dataEnd sectionHeader sectionNum chunks s rule: chunk_walk.induct)
  case (1 mem dataEnd sectionHeader sectionNum chunks s)
  then show ?case
    by (subst walk.simps, subst chunk_walk.simps)
       (auto simp: section_body_subsection split: option.splits sum.splits prod.splits)
qed

lemma pfs_extract_subsection:
  "pfs_extract srt env mem buffer bufferSize (Some name) s =
     chunk_pass srt env mem buffer bufferSize name s"
  by (simp add: pfs_extract_validate chunk_pass_def walk_subsection split: sum.splits prod.splits)

lemma section_body_normal:
  "section_body srt env mem False sectionHeader sh sectionNum chunks s =
     normal_body srt env mem sectionHeader sh sectionNum chunks s"
  by (subst section_body.simps)
     (simp add: normal_body_def pfs_extract_subsection Let_def
        split: option.splits sum.splits prod.splits)

lemma walk_normal:
  "walk srt env mem False dataEnd sectionHeader sectionNum chunks s =
     normal_walk srt env mem dataEnd sectionHeader sectionNum chunks s"
proof (induction srt env mem dataEnd sectionHeader sectionNum chunks s rule: normal_walk.induct)
  case (1 srt env mem dataEnd sectionHeader sectionNum chunks s)
  then show ?case
    by (subst walk.simps, subst normal_walk.simps)
       (auto simp: section_body_normal split: option.splits sum.splits prod.splits)
qed

lemma pfs_extract_normal:
  "pfs_extract srt env mem buffer bufferSize None s =
     normal_pass srt env mem buffer bufferSize s"
  by (simp add: pfs_extract_validate normal_pass_def walk_normal split: sum.splits prod.splits)

subsection \<open>The output sink only grows\<close>

lemma say_files [simp]: "files (say m s) = files s"
  by (simp add: say_def)

lemma say_console [simp]: "console (say m s) = console s @ [m]"
  by (simp add: say_def)

lemma decode_version_files': "decode_version sh s = (v, s') \<Longrightarrow> files s' = files s"
  by (auto simp: decode_version_def split: prod.splits if_splits)

lemma write_file_cases:
  assumes "write_file env name buf s = (s', r)"
  shows "(r = Inl OutOfBoundsRead \<and> s' = s \<and> buf = None \<and> env (length (files s)) \<noteq> CreateFailed) \<or>
         (\<exists>rc. r = Inr rc \<and> files s' = files s @ [(name, buf, rc)] \<and>
            (buf = None \<longrightarrow> env (length (files s)) = CreateFailed))"
  using assms
  by (auto simp: write_file_def split: io_result.splits option.splits)

lemma write_file_prefix:
  "write_file env name buf s = (s', r) \<Longrightarrow> prefix (files s) (files s')"
  by (drule write_file_cases) auto

lemma emit_block_prefix:
  "emit_block env mem isSubsection name ptr sz s = (s', r) \<Longrightarrow> prefix (files s) (files s')"
  by (auto simp: emit_block_def split: if_splits prod.splits sum.splits dest: write_file_prefix)

lemma emit_rest_prefix:
  assumes "emit_rest env mem isSubsection sectionNum version ptr sh s = (s', r)"
  shows "prefix (files s) (files s')"
  using assms
  by (auto simp: emit_rest_def split: prod.splits sum.splits
      dest!: emit_block_prefix intro: prefix_order.trans)

lemma after_data_prefix:
  assumes "after_data env mem isSubsection sectionNum version ptr sh (s, w) = (s', r)"
  shows "prefix (files s) (files s')"
  using assms
  by (auto simp: after_data_def split: prod.splits sum.splits dest!: emit_rest_prefix)

lemma finish_pass_prefix:
  assumes "finish_pass srt env filename w = (s', r)"
  shows "prefix (files (fst w)) (files s')"
  using assms
  by (auto simp: finish_pass_def split: prod.splits sum.splits option.splits
      dest!: write_file_prefix)

lemma validate_files:
  "validate mem buffer bufferSize isSubsection s = Inl (s', r) \<Longrightarrow> files s' = files s"
  "validate mem buffer bufferSize isSubsection s = Inr (dataStart, dataEnd, s4) \<Longrightarrow> files s4 = files s"
  by (auto simp: validate_def Let_def split: option.splits if_splits)

lemma chunk_body_files:
  "chunk_body mem sectionHeader sh sectionNum chunks s = (s', r) \<Longrightarrow> files s' = files s"
  by (auto simp: chunk_body_def split: prod.splits if_splits sum.splits dest!: decode_version_files')

lemma chunk_walk_cases:
  assumes "chunk_walk mem dataEnd sectionHeader sectionNum chunks s = (s', r)"
  obtains (stop) "\<not> sectionHeader < dataEnd" "s' = s" "r = Inr chunks"
    | (unreadable) "sectionHeader < dataEnd" "read_section_header mem sectionHeader = None"
        "s' = s" "r = Inl OutOfBoundsRead"
    | (fault) sh e where "sectionHeader < dataEnd"
        "read_section_header mem sectionHeader = Some sh"
        "chunk_body mem sectionHeader sh sectionNum chunks s = (s', Inl e)" "r = Inl e"
    | (step) sh s1 chunks' where "sectionHeader < dataEnd"
        "read_section_header mem sectionHeader = Some sh"
        "chunk_body mem sectionHeader sh sectionNum chunks s = (s1, Inr chunks')"
        "chunk_walk mem dataEnd (sectionHeader + SECTION_HEADER_SIZE + blocks_size sh)
           (sectionNum + 1) chunks' s1 = (s', r)"
  using assms
  by (subst (asm) chunk_walk.simps)
     (auto split: if_splits option.splits prod.splits sum.splits)

lemma chunk_walk_files:
  "chunk_walk mem dataEnd sectionHeader sectionNum chunks s = (s', r) \<Longrightarrow> files s' = files s"
proof (induction mem dataEnd sectionHeader sectionNum chunks s rule: chunk_walk.induct)
  case (1 mem dataEnd sectionHeader sectionNum chunks s)
  from "1.prems" show ?case
  proof (cases rule: chunk_walk_cases)
    case (fault sh e)
    then show ?thesis by (simp add: chunk_body_files)
  next
    case (step sh s1 chunks')
    from "1.IH" [OF step(1,2) step(3) [symmetric] refl step(4)] chunk_body_files [OF step(3)]
    show ?thesis by simp
  qed simp_all
qed

lemma validate_fails:
  "validate mem buffer bufferSize isSubsection s = Inl (s', r) \<Longrightarrow>
   r = Inr 1 \<or> r = Inl OutOfBoundsRead"
  by (auto simp: validate_def Let_def split: option.splits if_splits)

lemma chunk_pass_files:
  assumes "chunk_pass srt env mem buffer bufferSize name s = (s', r)"
  shows "(files s' = files s \<and> r \<noteq> Inr 0) \<or>
         (\<exists>chunks dataStart dataEnd s4 s5 rc.
            validate mem buffer bufferSize True s = Inr (dataStart, dataEnd, s4) \<and>
            chunk_walk mem dataEnd dataStart 0 [] s4 = (s5, Inr chunks) \<and>
            files s' = files s @ [(name, Some (concat (map data (srt chunks))), rc)] \<and> r = Inr 0)"
proof (cases "validate mem buffer bufferSize True s")
  case (Inl a)
  with assms validate_files(1) [of mem buffer bufferSize True s s' r]
    validate_fails [of mem buffer bufferSize True s s' r]
  show ?thesis by (cases a) (auto simp: chunk_pass_def)
next
  case (Inr b)
  obtain dataStart dataEnd s4 where b: "b = (dataStart, dataEnd, s4)" by (cases b) auto
  obtain s5 w where w: "chunk_walk mem dataEnd dataStart 0 [] s4 = (s5, w)"
    by (cases "chunk_walk mem dataEnd dataStart 0 [] s4") auto
  have f: "files s5 = files s"
    using chunk_walk_files [OF w] validate_files(2) [OF Inr [unfolded b]] by simp
  show ?thesis
  proof (cases w)
    case (Inl e)
    with assms Inr b w f show ?thesis by (auto simp add: chunk_pass_def finish_pass_def)
  next
    case (Inr chunks)
    with assms \<open>validate mem buffer bufferSize True s = Inr b\<close> b w f show ?thesis
      by (auto simp: chunk_pass_def finish_pass_def split: prod.splits sum.splits
          dest!: write_file_cases)
  qed
qed

lemma chunk_pass_prefix:
  "chunk_pass srt env mem buffer bufferSize name s = (s', r) \<Longrightarrow> prefix (files s) (files s')"
  by (drule chunk_pass_files) auto

lemma normal_body_prefix:
  assumes "normal_body srt env mem sectionHeader sh sectionNum chunks s = (s', r)"
  shows "prefix (files s) (files s')"
  using assms
  by (auto simp: normal_body_def Let_def
      split: prod.splits if_splits sum.splits option.splits
      dest!: decode_version_files' write_file_prefix chunk_pass_prefix after_data_prefix
      intro: prefix_order.trans)

lemma normal_walk_cases:
  assumes "normal_walk srt env mem dataEnd sectionHeader sectionNum chunks s = (s', r)"
  obtains (stop) "\<not> sectionHeader < dataEnd" "s' = s" "r = Inr chunks"
    | (unreadable) "sectionHeader < dataEnd" "read_section_header mem sectionHeader = None"
        "s' = s" "r = Inl OutOfBoundsRead"
    | (fault) sh e where "sectionHeader < dataEnd"
        "read_section_header mem sectionHeader = Some sh"
        "normal_body srt env mem sectionHeader sh sectionNum chunks s = (s', Inl e)" "r = Inl e"
    | (step) sh s1 chunks' where "sectionHeader < dataEnd"
        "read_section_header mem sectionHeader = Some sh"
        "normal_body srt env mem sectionHeader sh sectionNum chunks s = (s1, Inr chunks')"
        "normal_walk srt env mem dataEnd (sectionHeader + SECTION_HEADER_SIZE + blocks_size sh)
           (sectionNum + 1) chunks' s1 = (s', r)"
  using assms
  by (subst (asm) normal_walk.simps)
     (auto split: if_splits option.splits prod.splits sum.splits)

lemma normal_walk_prefix:
  "normal_walk srt env mem dataEnd sectionHeader sectionNum chunks s = (s', r) \<Longrightarrow>
   prefix (files s) (files s')"
proof (induction srt env mem dataEnd sectionHeader sectionNum chunks s rule: normal_walk.induct)
  case (1 srt env mem dataEnd sectionHeader sectionNum chunks s)
  from "1.prems" show ?case
  proof (cases rule: normal_walk_cases)
    case (fault sh e)
    then show ?thesis by (simp add: normal_body_prefix)
  next
    case (step sh s1 chunks')
    from "1.IH" [OF step(1,2) step(3) [symmetric] refl step(4)] normal_body_prefix [OF step(3)]
    show ?thesis by (rule prefix_order.trans [rotated])
  qed simp_all
qed

lemma walk_prefix:
  "walk srt env mem isSubsection dataEnd sectionHeader sectionNum chunks s = (s', r) \<Longrightarrow>
   prefix (files s) (files s')"
  by (cases isSubsection) (auto simp: walk_subsection walk_normal dest: normal_walk_prefix chunk_walk_files)

lemma section_body_prefix:
  "section_body srt env mem isSubsection sectionHeader sh sectionNum chunks s = (s', r) \<Longrightarrow>
   prefix (files s) (files s')"
  by (cases isSubsection)
     (auto simp: section_body_subsection section_body_normal dest: normal_body_prefix chunk_body_files)

lemma pfs_extract_prefix:
  assumes "pfs_extract srt env mem buffer bufferSize filename s = (s', r)"
  shows "prefix (files s) (files s')"
proof (cases "validate mem buffer bufferSize (filename \<noteq> None) s")
  case (Inl a)
  with assms validate_files(1) [of mem buffer bufferSize "filename \<noteq> None" s s' r]
  show ?thesis by (cases a) (auto simp: pfs_extract_validate)
next
  case (Inr b)
  obtain dataStart dataEnd s4 where b: "b = (dataStart, dataEnd, s4)" by (cases b) auto
  obtain s5 w where w: "walk srt env mem (filename \<noteq> None) dataEnd dataStart 0 [] s4 = (s5, w)"
    by (cases "walk srt env mem (filename \<noteq> None) dataEnd dataStart 0 [] s4") auto
  from assms Inr b w have "finish_pass srt env filename (s5, w) = (s', r)"
    by (simp add: pfs_extract_validate)
  from finish_pass_prefix [OF this] walk_prefix [OF w] validate_files(2) [OF Inr [unfolded b]]
  show ?thesis by (auto intro: prefix_order.trans)
qed

subsection \<open>The walk and the end of the data region\<close>










text \<open>
  The whole subsection pass on \<open>truncated_chunk_image\<close>: the footer is read inside the
  chunk, its two mismatches are printed, and the chunk that passes the end of the data
  region is collected and written.
\<close>

lemma truncated_chunk_image_run:
  "pfs_extract stable_sort env_ok truncated_chunk_image (Some 0) 690 (Some ''out'') empty_out =
     (\<lparr> console =
          [FileHeaderInfo True PFS_HEADER_SIGNATURE 1 100,
           FileFooterInfo True 0 0 0,
           InvalidFooterSignature,
           DataSizeMismatch 100 0,
           SectionHeaderInfo True 0 ''00000000-0000-0000-0000-000000000000''
             ''00000000-0000-0000-0000-000000000000'' 586 0 0 0],
        files = [(''out'', Some (bytes_of ''ZZ''), 0)] \<rparr>, Inr 0)"
  by (simp add: pfs_eval truncated_chunk_image_def example_chunk_def stable_sort_def)


text \<open>
  When the declared block leaves the buffer, \<^verbatim>\<open>fwrite\<close> is handed a region that is not
  inside the allocation: the run of the model ends in \<open>OutOfBoundsRead\<close>.
\<close>

lemma overrun_image_run:
  "length overrun_image = 104 \<and>
   pfs_main stable_sort env_ok overrun_image =
     (\<lparr> console =
          [FileHeaderInfo False PFS_HEADER_SIGNATURE 1 72,
           FileFooterInfo False PFS_FOOTER_SIGNATURE 0 72,
           SectionHeaderInfo False 0 ''00000000-0000-0000-0000-000000000000''
             ''00000000-0000-0000-0000-000000000000'' 4096 0 0 0],
        files = [] \<rparr>, Inl OutOfBoundsRead)"
  by (simp add: pfs_eval overrun_image_def)

subsection \<open>Chunk reassembly\<close>

lemma filter_distinct_key:
  "distinct (map f ys) \<Longrightarrow> k \<in> set ys \<Longrightarrow> filter (\<lambda>x. f k = f x) ys = [k]"
proof (induction ys)
  case Nil
  then show ?case by simp
next
  case (Cons y ys)
  show ?case
  proof (cases "k = y")
    case True
    with Cons.prems have "filter (\<lambda>x. f y = f x) ys = []"
      by (auto simp: filter_empty_conv)
    with True show ?thesis by simp
  next
    case False
    with Cons show ?thesis by (auto simp: image_iff)
  qed
qed

lemma sort_contract_sorted:
  assumes "sort_contract srt"
  shows "sorted (map orderNum (srt cs))" and "mset (srt cs) = mset cs"
proof -
  from assms have "sorted_wrt (\<lambda>a b. \<not> orderNum b < orderNum a) (srt cs)"
    by (simp add: sort_contract_def)
  then have "sorted_wrt (\<lambda>a b. orderNum a \<le> orderNum b) (srt cs)"
    by (rule sorted_wrt_mono_rel [rotated]) (simp add: not_less)
  then show "sorted (map orderNum (srt cs))"
    by (simp only: sorted_map)
  from assms show "mset (srt cs) = mset cs"
    by (simp add: sort_contract_def)
qed

lemma sort_contract_distinct:
  assumes "sort_contract srt" and "distinct (map orderNum cs)"
  shows "srt cs = sort_key orderNum cs"
proof -
  have m: "mset (srt cs) = mset cs" and s: "sorted (map orderNum (srt cs))"
    using sort_contract_sorted [OF assms(1)] by auto
  from m have "mset (map orderNum (srt cs)) = mset (map orderNum cs)" by simp
  then have d: "distinct (map orderNum (srt cs))"
    using assms(2) by (metis mset_eq_imp_distinct_iff)
  have "sort_key orderNum cs = srt cs"
  proof (rule properties_for_sort_key [OF m _ s])
    fix k assume k: "k \<in> set (srt cs)"
    then have k': "k \<in> set cs" using m by (metis mset_eq_setD)
    show "filter (\<lambda>x. orderNum k = orderNum x) (srt cs) =
          filter (\<lambda>x. orderNum k = orderNum x) cs"
      using filter_distinct_key [OF d k] filter_distinct_key [OF assms(2) k'] by simp
  qed
  then show ?thesis by simp
qed

lemma sort_key_contract:
  "sorted_wrt (\<lambda>a b. \<not> orderNum b < orderNum a) (sort_key orderNum cs)"
proof -
  have "sorted (map orderNum (sort_key orderNum cs))" by simp
  then have "sorted_wrt (\<lambda>a b. orderNum a \<le> orderNum b) (sort_key orderNum cs)"
    by (simp only: sorted_map)
  then show ?thesis
    by (rule sorted_wrt_mono_rel [rotated]) (simp add: not_less)
qed

lemma sort_contract_stable_sort: "sort_contract stable_sort"
  by (simp add: sort_contract_def stable_sort_def sort_key_contract)

text \<open>
  C2 (as amended). A chunk-collection pass that returns 0 calls the output sink exactly
  once, under the name handed in by the caller, with the concatenation of the
  collected chunks in the order \<^verbatim>\<open>std::sort\<close> gives them: ascending by order number,
  a permutation of the chunks collected by the walk. \<^verbatim>\<open>std::sort\<close> is not a stable sort,
  so nothing is promised for chunks with equal order numbers; when the order numbers
  are pairwise distinct the order is the one a stable sort gives. The chunks
  (2,"BB"), (0,"AA"), (1,"CC") are written as "AACCBB".
\<close>

theorem chunk_pass_reassembles:
  assumes "sort_contract srt"
      and "pfs_extract srt env mem buffer bufferSize (Some name) s = (s', Inr 0)"
  shows "(\<exists>dataStart dataEnd s4 s5 chunks rc.
            validate mem buffer bufferSize True s = Inr (dataStart, dataEnd, s4) \<and>
            walk srt env mem True dataEnd dataStart 0 [] s4 = (s5, Inr chunks) \<and>
            files s' = files s @ [(name, Some (concat (map data (srt chunks))), rc)] \<and>
            sorted (map orderNum (srt chunks)) \<and> mset (srt chunks) = mset chunks \<and>
            (distinct (map orderNum chunks) \<longrightarrow> srt chunks = sort_key orderNum chunks)) \<and>
         sink_calls (fst (finish_pass srt env (Some name)
            (s, Inr [\<lparr> data = bytes_of ''BB'', orderNum = 2 \<rparr>,
                     \<lparr> data = bytes_of ''AA'', orderNum = 0 \<rparr>,
                     \<lparr> data = bytes_of ''CC'', orderNum = 1 \<rparr>])))
           = sink_calls s @ [(name, Some (bytes_of ''AACCBB''))]"
proof -
  from assms(2) have "chunk_pass srt env mem buffer bufferSize name s = (s', Inr 0)"
    by (simp add: pfs_extract_subsection)
  from chunk_pass_files [OF this]
  obtain chunks dataStart dataEnd s4 s5 rc where
    v: "validate mem buffer bufferSize True s = Inr (dataStart, dataEnd, s4)" and
    w: "chunk_walk mem dataEnd dataStart 0 [] s4 = (s5, Inr chunks)" and
    f: "files s' = files s @ [(name, Some (concat (map data (srt chunks))), rc)]"
    by auto
  have first: "\<exists>dataStart dataEnd s4 s5 chunks rc.
            validate mem buffer bufferSize True s = Inr (dataStart, dataEnd, s4) \<and>
            walk srt env mem True dataEnd dataStart 0 [] s4 = (s5, Inr chunks) \<and>
            files s' = files s @ [(name, Some (concat (map data (srt chunks))), rc)] \<and>
            sorted (map orderNum (srt chunks)) \<and> mset (srt chunks) = mset chunks \<and>
            (distinct (map orderNum chunks) \<longrightarrow> srt chunks = sort_key orderNum chunks)"
    using v w f sort_contract_sorted [OF assms(1)] sort_contract_distinct [OF assms(1)]
    by (auto simp: walk_subsection)
  have "srt [\<lparr> data = bytes_of ''BB'', orderNum = 2 \<rparr>, \<lparr> data = bytes_of ''AA'', orderNum = 0 \<rparr>,
             \<lparr> data = bytes_of ''CC'', orderNum = 1 \<rparr>]
       = [\<lparr> data = bytes_of ''AA'', orderNum = 0 \<rparr>, \<lparr> data = bytes_of ''CC'', orderNum = 1 \<rparr>,
          \<lparr> data = bytes_of ''BB'', orderNum = 2 \<rparr>]"
    by (subst sort_contract_distinct [OF assms(1)]) (simp_all add: word_le_nat_alt)
  then have second: "sink_calls (fst (finish_pass srt env (Some name)
            (s, Inr [\<lparr> data = bytes_of ''BB'', orderNum = 2 \<rparr>,
                     \<lparr> data = bytes_of ''AA'', orderNum = 0 \<rparr>,
                     \<lparr> data = bytes_of ''CC'', orderNum = 1 \<rparr>])))
           = sink_calls s @ [(name, Some (bytes_of ''AACCBB''))]"
    by (simp add: finish_pass_def write_file_def sink_calls_def bytes_of_def
        split: io_result.splits)
  from first second show ?thesis by blast
qed


lemma two_chunk_image_run:
  "pfs_extract stable_sort env_ok two_chunk_image (Some 0) 1348 (Some ''out'') empty_out =
     (\<lparr> console =
          [FileHeaderInfo True PFS_HEADER_SIGNATURE 1 1316,
           FileFooterInfo True PFS_FOOTER_SIGNATURE 0 1316,
           SectionHeaderInfo True 0 ''00000000-0000-0000-0000-000000000000''
             ''00000000-0000-0000-0000-000000000000'' 586 0 0 0,
           SectionHeaderInfo True 1 ''00000000-0000-0000-0000-000000000000''
             ''00000000-0000-0000-0000-000000000000'' 586 0 0 0],
        files = [(''out'', Some (bytes_of ''AABB''), 0)] \<rparr>, Inr 0)"
  by (simp add: pfs_eval two_chunk_image_def example_chunk_def stable_sort_def)

theorem chunk_pass_reassembles_witness:
  "(\<exists>dataStart dataEnd s4 s5 chunks rc.
      validate two_chunk_image (Some 0) 1348 True empty_out = Inr (dataStart, dataEnd, s4) \<and>
      walk stable_sort env_ok two_chunk_image True dataEnd dataStart 0 [] s4 = (s5, Inr chunks) \<and>
      [(''out'', Some (bytes_of ''AABB''), 0)] =
        [(''out'', Some (concat (map data (stable_sort chunks))), rc)] \<and>
      sorted (map orderNum (stable_sort chunks)) \<and> mset (stable_sort chunks) = mset chunks) \<and>
   sink_calls (fst (finish_pass stable_sort env_ok (Some ''out'')
      (empty_out, Inr [\<lparr> data = bytes_of ''BB'', orderNum = 2 \<rparr>,
                       \<lparr> data = bytes_of ''AA'', orderNum = 0 \<rparr>,
                       \<lparr> data = bytes_of ''CC'', orderNum = 1 \<rparr>])))
     = [(''out'', Some (bytes_of ''AACCBB''))]"
  using chunk_pass_reassembles [OF sort_contract_stable_sort two_chunk_image_run]
  by (simp add: empty_out_def sink_calls_def) blast

text \<open>
  The sort of the library on concrete vectors. Ranges of at most 16 elements are left to
  the insertion sort, which moves an element only past greater ones; a range of 17
  elements is partitioned once.
\<close>

lemma list_update_numeral_eval:
  "(x # xs)[numeral k := v] = x # xs[pred_numeral k := v]"
  by (simp add: numeral_eq_Suc)

lemma introsort_loop_done:
  "\<not> 16 < lasti - first \<Longrightarrow> introsort_loop xs first lasti d = xs"
  by (subst introsort_loop.simps) simp

lemma introsort_loop_step:
  "16 < lasti - first \<Longrightarrow> d \<noteq> 0 \<Longrightarrow>
   unguarded_partition_pivot xs first lasti = (xs1, cuti) \<Longrightarrow>
   introsort_loop xs first lasti d =
     introsort_loop (introsort_loop xs1 cuti lasti (d - 1)) first cuti (d - 1)"
  by (subst introsort_loop.simps) simp

lemma unguarded_linear_insert_stop:
  "\<not> (0 < lasti \<and> chunk_less val (xs ! (lasti - 1))) \<Longrightarrow>
   unguarded_linear_insert xs lasti val = xs[lasti := val]"
  by (subst unguarded_linear_insert.simps) auto

lemma unguarded_linear_insert_step:
  "0 < lasti \<Longrightarrow> chunk_less val (xs ! (lasti - 1)) \<Longrightarrow>
   unguarded_linear_insert xs lasti val =
     unguarded_linear_insert (xs[lasti := xs ! (lasti - 1)]) (lasti - 1) val"
  by (subst unguarded_linear_insert.simps) simp

lemmas sort_eval = lg.simps
  unguarded_partition_pivot_def unguarded_partition.simps scan_up.simps scan_down.simps
  move_median_to_first_def iter_swap_def chunk_less_def final_insertion_sort_def
  insertion_sort_def unguarded_insertion_sort_def insertion_step_def
  unguarded_linear_insert_stop unguarded_linear_insert_step Let_def
  list_update_numeral_eval upt_rec

lemma tied_chunks_partition:
  "unguarded_partition_pivot (tied_chunks ''ABCDEFGHIJKLMNOPQ'') 0 17 =
     (tied_chunks ''IQPONMLKJAHGFEDCB'', 9)"
  by (simp add: sort_eval tied_chunks_def bytes_of_def)

lemma tied_chunks_introsort:
  "introsort_loop (tied_chunks ''ABCDEFGHIJKLMNOPQ'') 0 17 8 =
     tied_chunks ''IQPONMLKJAHGFEDCB''"
  by (subst introsort_loop_step [OF _ _ tied_chunks_partition])
     (simp_all add: introsort_loop_done)

lemma tied_chunks_insertion:
  "final_insertion_sort (tied_chunks ''IQPONMLKJAHGFEDCB'') 0 17 =
     tied_chunks ''IQPONMLKJAHGFEDCB''"
  by (simp add: sort_eval tied_chunks_def bytes_of_def)

lemma tied_chunks_sort:
  "std_sort (tied_chunks ''ABCDEFGHIJKLMNOPQ'') = tied_chunks ''IQPONMLKJAHGFEDCB''"
proof -
  have l: "length (tied_chunks ''ABCDEFGHIJKLMNOPQ'') = 17" "lg 17 * 2 = 8"
    "tied_chunks ''ABCDEFGHIJKLMNOPQ'' \<noteq> []"
    by (simp_all add: tied_chunks_def bytes_of_def lg.simps)
  show ?thesis
    unfolding std_sort_def l by (simp add: l tied_chunks_introsort tied_chunks_insertion)
qed

lemma tied_chunks_output:
  "concat (map data (tied_chunks payloads)) = bytes_of payloads"
  by (induction payloads) (simp_all add: tied_chunks_def bytes_of_def)

text \<open>
  The two chunks of \<open>tie_chunk_image\<close> carry the same order number and stay in the order
  in which they are met.
\<close>

lemma two_ties_keep_order:
  "pfs_extract std_sort env_ok tie_chunk_image (Some 0) 1348 (Some ''out'') empty_out =
     (\<lparr> console =
          [FileHeaderInfo True PFS_HEADER_SIGNATURE 1 1316,
           FileFooterInfo True PFS_FOOTER_SIGNATURE 0 1316,
           SectionHeaderInfo True 0 ''00000000-0000-0000-0000-000000000000''
             ''00000000-0000-0000-0000-000000000000'' 586 0 0 0,
           SectionHeaderInfo True 1 ''00000000-0000-0000-0000-000000000000''
             ''00000000-0000-0000-0000-000000000000'' 586 0 0 0],
        files = [(''out'', Some (bytes_of ''AABB''), 0)] \<rparr>, Inr 0)"
  by (simp add: pfs_eval tie_chunk_image_def example_chunk_def std_sort_def
      introsort_loop_done sort_eval)

lemma tied_chunks_walk:
  "walk srt env_ok tied_chunks_image True 11185 16 0 [] s =
     (s\<lparr> console := console s @
         map (\<lambda>k. SectionHeaderInfo True k ''00000000-0000-0000-0000-000000000000''
                ''00000000-0000-0000-0000-000000000000'' 585 0 0 0)
           [0, 1, 2, 3, 4, 5, 6, 7, 8, 9, 10, 11, 12, 13, 14, 15, 16] \<rparr>,
      Inr (tied_chunks ''ABCDEFGHIJKLMNOPQ''))"
  by (simp add: pfs_eval0 replicate_small_eval tied_chunks_image_def tied_chunk_def
      example_chunk_def tied_chunks_def)

lemma tied_chunks_image_run:
  "pfs_extract srt env_ok tied_chunks_image (Some 0) 11201 (Some ''out'') empty_out =
     (\<lparr> console =
          FileHeaderInfo True PFS_HEADER_SIGNATURE 1 11169 #
          FileFooterInfo True PFS_FOOTER_SIGNATURE 0 11169 #
          map (\<lambda>k. SectionHeaderInfo True k ''00000000-0000-0000-0000-000000000000''
                 ''00000000-0000-0000-0000-000000000000'' 585 0 0 0)
            [0, 1, 2, 3, 4, 5, 6, 7, 8, 9, 10, 11, 12, 13, 14, 15, 16],
        files = [(''out'', Some (concat (map data (srt (tied_chunks ''ABCDEFGHIJKLMNOPQ'')))), 0)] \<rparr>,
      Inr 0)"
proof -
  have h: "read_file_header tied_chunks_image 0 =
      Some \<lparr> fh_Signature = PFS_HEADER_SIGNATURE, fh_HeaderVersion = 1, fh_DataSize = 11169 \<rparr>"
    by (simp add: read_file_header_def read_bytes_def FILE_HEADER_SIZE_def le32_def le64_def
        word_rcat_def bytes_of_def PFS_HEADER_SIGNATURE_def enc32_def example_header_def
        tied_chunks_image_def)
  have f: "read_file_footer tied_chunks_image 11185 =
      Some \<lparr> ff_DataSize = 11169, ff_Checksum = 0, ff_Signature = PFS_FOOTER_SIGNATURE \<rparr>"
    by (simp add: read_file_footer_def read_bytes_def FILE_FOOTER_SIZE_def le32_def le64_def
        word_rcat_def bytes_of_def PFS_FOOTER_SIGNATURE_def enc32_def enc16_def example_header_def
        example_footer_def example_section_def example_chunk_def tied_chunk_def
        tied_chunks_image_def replicate_small_eval)
  show ?thesis
    by (subst pfs_extract.simps)
       (simp add: h f tied_chunks_walk FILE_HEADER_SIZE_def FILE_FOOTER_SIZE_def say_def
          empty_out_def finish_pass_def write_file_def env_ok_def Let_def)
qed

lemma tied_chunks_permuted:
  "mset (tied_chunks ''IQPONMLKJAHGFEDCB'') = mset (tied_chunks ''ABCDEFGHIJKLMNOPQ'') \<and>
   sorted (map orderNum (tied_chunks ''IQPONMLKJAHGFEDCB''))"
  by (simp add: tied_chunks_def bytes_of_def)

text \<open>
  The claim as stated fails on \<open>tied_chunks_image\<close> with the sort of GNU libstdc++. The
  walk collects 17 chunks with the order number 1 and the payloads "A" to "Q", in this
  order. The partition step of the introsort loop swaps elements that are equal to the
  pivot, and the insertion sort that follows moves nothing: the sorted vector is a
  permutation of the chunks in ascending order of their order numbers, as the standard
  promises, and the file written is "IQPONMLKJAHGFEDCB", not "ABCDEFGHIJKLMNOPQ".
\<close>

theorem library_sort_reorders_ties_counterexample:
  "snd (walk std_sort env_ok tied_chunks_image True 11185 16 0 [] empty_out) =
     Inr (tied_chunks ''ABCDEFGHIJKLMNOPQ'') \<and>
   std_sort (tied_chunks ''ABCDEFGHIJKLMNOPQ'') = tied_chunks ''IQPONMLKJAHGFEDCB'' \<and>
   mset (std_sort (tied_chunks ''ABCDEFGHIJKLMNOPQ'')) = mset (tied_chunks ''ABCDEFGHIJKLMNOPQ'') \<and>
   sorted (map orderNum (std_sort (tied_chunks ''ABCDEFGHIJKLMNOPQ''))) \<and>
   files (fst (pfs_extract std_sort env_ok tied_chunks_image (Some 0) 11201 (Some ''out'')
      empty_out)) = [(''out'', Some (bytes_of ''IQPONMLKJAHGFEDCB''), 0)] \<and>
   snd (pfs_extract std_sort env_ok tied_chunks_image (Some 0) 11201 (Some ''out'') empty_out) =
     Inr 0"
  by (simp add: tied_chunks_walk tied_chunks_image_run tied_chunks_sort tied_chunks_output
      tied_chunks_permuted)

subsection \<open>Recursion depth\<close>

lemma finish_pass_result:
  "finish_pass srt env filename w = (s', Inr rc) \<Longrightarrow> rc = 0"
  by (auto simp: finish_pass_def split: prod.splits sum.splits option.splits)

lemma pfs_extract_result:
  assumes "pfs_extract srt env mem buffer bufferSize filename s = (s', Inr rc)"
  shows "rc = 0 \<or> rc = 1"
proof (cases "validate mem buffer bufferSize (filename \<noteq> None) s")
  case (Inl a)
  with assms validate_fails [of mem buffer bufferSize "filename \<noteq> None" s s' "Inr rc"]
  show ?thesis by (cases a) (auto simp: pfs_extract_validate)
next
  case (Inr b)
  with assms show ?thesis
    by (cases b) (auto simp: pfs_extract_validate dest: finish_pass_result)
qed

text \<open>
  C7 (as amended). The code has no depth counter and no TooDeep failure; the value
  returned is 0 or 1. The recursion is bounded all the same: a call with a file name
  (every recursive call is one) is \<open>chunk_pass\<close>, whose loop \<open>chunk_walk\<close> and loop body
  \<open>chunk_body\<close> call neither \<open>pfs_extract\<close> nor \<open>write_file\<close>, and the loop body of a
  call without a file name is \<open>normal_body\<close>, whose only nested parse is \<open>chunk_pass\<close>.
  So no input makes \<open>pfs_extract\<close> recurse more than one level deep; a container nested
  deeper is not parsed, its bytes are chunk data.
\<close>

theorem recursion_is_one_level_deep:
  "pfs_extract srt env mem buffer bufferSize (Some name) s =
     chunk_pass srt env mem buffer bufferSize name s \<and>
   walk srt env mem True dataEnd sectionHeader sectionNum chunks s =
     chunk_walk mem dataEnd sectionHeader sectionNum chunks s \<and>
   section_body srt env mem True sectionHeader sh sectionNum chunks s =
     chunk_body mem sectionHeader sh sectionNum chunks s \<and>
   section_body srt env mem False sectionHeader sh sectionNum chunks s =
     normal_body srt env mem sectionHeader sh sectionNum chunks s \<and>
   (\<forall>s' rc. pfs_extract srt env mem buffer bufferSize filename s = (s', Inr rc)
      \<longrightarrow> rc = 0 \<or> rc = 1)"
  by (simp add: pfs_extract_subsection walk_subsection section_body_subsection
      section_body_normal) (blast dest: pfs_extract_result)

lemma deep_image_run:
  "pfs_main stable_sort env_ok deep_image =
     (\<lparr> console =
          [FileHeaderInfo False PFS_HEADER_SIGNATURE 1 784,
           FileFooterInfo False PFS_FOOTER_SIGNATURE 0 784,
           SectionHeaderInfo False 0 ''00000000-0000-0000-0000-000000000000''
             ''00000000-0000-0000-0000-000000000000'' 712 0 0 0,
           FileHeaderInfo True PFS_HEADER_SIGNATURE 1 680,
           FileFooterInfo True PFS_FOOTER_SIGNATURE 0 680,
           SectionHeaderInfo True 0 ''00000000-0000-0000-0000-000000000000''
             ''00000000-0000-0000-0000-000000000000'' 608 0 0 0],
        files = [(''section_0_.data'', Some middle_image, 0),
                 (''section_0_.payload'', Some (replicate 8 0 @ example_footer 576), 0)] \<rparr>,
      Inr 0)"
  by (simp add: pfs_eval deep_image_def middle_image_def innermost_image_def stable_sort_def)

theorem recursion_is_one_level_deep_witness:
  "pfs_extract stable_sort env_ok deep_image (Some 88) 712 (Some ''section_0_.payload'')
     empty_out =
     chunk_pass stable_sort env_ok deep_image (Some 88) 712 ''section_0_.payload'' empty_out \<and>
   snd (pfs_main stable_sort env_ok deep_image) = Inr 0"
  using recursion_is_one_level_deep [of stable_sort env_ok deep_image "Some 88" 712
      "''section_0_.payload''" empty_out 0 0 0 "[]" blank_section_header None]
    deep_image_run
  by simp

text \<open>
  The claim as stated fails on \<open>deep_image\<close>, whose nesting is one level deeper than
  the code ever recurses: the call does not fail, it returns 0; the middle container
  is parsed as a subsection and the innermost container is not parsed at all, its
  last 24 bytes are the payload written.
\<close>

theorem deep_nesting_is_accepted_counterexample:
  "take 8 middle_image = bytes_of ''PFS.HDR.'' \<and> take 8 innermost_image = bytes_of ''PFS.HDR.'' \<and>
   pfs_main stable_sort env_ok deep_image =
     (\<lparr> console =
          [FileHeaderInfo False PFS_HEADER_SIGNATURE 1 784,
           FileFooterInfo False PFS_FOOTER_SIGNATURE 0 784,
           SectionHeaderInfo False 0 ''00000000-0000-0000-0000-000000000000''
             ''00000000-0000-0000-0000-000000000000'' 712 0 0 0,
           FileHeaderInfo True PFS_HEADER_SIGNATURE 1 680,
           FileFooterInfo True PFS_FOOTER_SIGNATURE 0 680,
           SectionHeaderInfo True 0 ''00000000-0000-0000-0000-000000000000''
             ''00000000-0000-0000-0000-000000000000'' 608 0 0 0],
        files = [(''section_0_.data'', Some middle_image, 0),
                 (''section_0_.payload'', Some (replicate 8 0 @ example_footer 576), 0)] \<rparr>,
      Inr 0)"
  by (simp add: deep_image_run)
     (simp add: middle_image_def innermost_image_def example_header_def bytes_of_def)

subsection \<open>Nested containers\<close>

lemma normal_body_nested:
  assumes "sh_DataSize sh \<noteq> 0"
      and "rd64 mem (sectionHeader + SECTION_HEADER_SIZE) = Some PFS_HEADER_SIGNATURE"
      and "decode_version sh (say (section_info False sectionNum sh) s) = (version, s2)"
      and "write_file env (section_name sectionNum version ''data'')
             (read_bytes mem (sectionHeader + SECTION_HEADER_SIZE) (unat (sh_DataSize sh))) s2
           = (s3, Inr rc)"
  shows "normal_body srt env mem sectionHeader sh sectionNum chunks s =
           (case chunk_pass srt env mem (Some (sectionHeader + SECTION_HEADER_SIZE))
                   (unat (sh_DataSize sh)) (section_name sectionNum version ''payload'') s3 of
              (s4, Inl e) \<Rightarrow> (s4, Inl e)
            | (s4, Inr rc') \<Rightarrow>
                after_data env mem False sectionNum version
                  (sectionHeader + SECTION_HEADER_SIZE) sh (s4, Inr chunks))"
  using assms by (simp add: normal_body_def Let_def)

text \<open>
  C5 (as amended). When the data block of a Normal-mode section has been written and
  begins with the header magic, the loop body parses the block by a call of
  \<open>pfs_extract\<close> with the file name \<open>section_<index>_<version>payload\<close>; a call with a
  file name is a chunk-collect pass, so the nested pass writes no per-section file:
  it leaves the output sink as it is or adds the one payload file. The call made by
  \<open>main\<close> has no file name and is a Normal pass.
\<close>

theorem nested_parse_is_chunk_collect:
  assumes "sh_DataSize sh \<noteq> 0"
      and "rd64 mem (sectionHeader + SECTION_HEADER_SIZE) = Some PFS_HEADER_SIGNATURE"
      and "decode_version sh (say (section_info False sectionNum sh) s) = (version, s2)"
      and "write_file env (section_name sectionNum version ''data'')
             (read_bytes mem (sectionHeader + SECTION_HEADER_SIZE) (unat (sh_DataSize sh))) s2
           = (s3, Inr rc)"
  shows "section_body srt env mem False sectionHeader sh sectionNum chunks s =
           (case pfs_extract srt env mem (Some (sectionHeader + SECTION_HEADER_SIZE))
                   (unat (sh_DataSize sh))
                   (Some (section_name sectionNum version ''payload'')) s3 of
              (s4, Inl e) \<Rightarrow> (s4, Inl e)
            | (s4, Inr rc') \<Rightarrow>
                after_data env mem False sectionNum version
                  (sectionHeader + SECTION_HEADER_SIZE) sh (s4, Inr chunks)) \<and>
         pfs_extract srt env mem (Some (sectionHeader + SECTION_HEADER_SIZE))
             (unat (sh_DataSize sh)) (Some (section_name sectionNum version ''payload'')) s3 =
           chunk_pass srt env mem (Some (sectionHeader + SECTION_HEADER_SIZE))
             (unat (sh_DataSize sh)) (section_name sectionNum version ''payload'') s3 \<and>
         (\<forall>s4 r. pfs_extract srt env mem (Some (sectionHeader + SECTION_HEADER_SIZE))
             (unat (sh_DataSize sh)) (Some (section_name sectionNum version ''payload'')) s3
               = (s4, r) \<longrightarrow>
            files s4 = files s3 \<or>
            (\<exists>bytes rc'. files s4 =
               files s3 @ [(section_name sectionNum version ''payload'', Some bytes, rc')])) \<and>
         pfs_main srt env mem = normal_pass srt env mem (Some 0) (length mem) empty_out"
proof -
  have a: "section_body srt env mem False sectionHeader sh sectionNum chunks s =
           (case pfs_extract srt env mem (Some (sectionHeader + SECTION_HEADER_SIZE))
                   (unat (sh_DataSize sh))
                   (Some (section_name sectionNum version ''payload'')) s3 of
              (s4, Inl e) \<Rightarrow> (s4, Inl e)
            | (s4, Inr rc') \<Rightarrow>
                after_data env mem False sectionNum version
                  (sectionHeader + SECTION_HEADER_SIZE) sh (s4, Inr chunks))"
    by (simp add: section_body_normal normal_body_nested [OF assms] pfs_extract_subsection)
  have c: "files s4 = files s3 \<or>
            (\<exists>bytes rc'. files s4 =
               files s3 @ [(section_name sectionNum version ''payload'', Some bytes, rc')])"
    if "pfs_extract srt env mem (Some (sectionHeader + SECTION_HEADER_SIZE))
             (unat (sh_DataSize sh)) (Some (section_name sectionNum version ''payload'')) s3
               = (s4, r)" for s4 r
    using chunk_pass_files [OF that [unfolded pfs_extract_subsection]] by auto
  from a c show ?thesis
    by (simp add: pfs_extract_subsection pfs_main_def pfs_extract_normal)
qed

lemma nested_image_header:
  "read_section_header nested_image 16 = Some nested_section_header"
  by (simp add: pfs_eval nested_image_def inner_image_def nested_section_header_def)

lemma nested_image_magic: "rd64 nested_image 88 = Some PFS_HEADER_SIGNATURE"
  by (simp add: pfs_eval nested_image_def inner_image_def)

lemma nested_image_block: "read_bytes nested_image 88 105 = Some inner_image"
  by (simp add: pfs_eval nested_image_def inner_image_def)

lemma nested_image_version:
  "decode_version nested_section_header (say (section_info False 0 nested_section_header) empty_out)
     = (''.'', \<lparr> console = [section_info False 0 nested_section_header], files = [] \<rparr>)"
  by (simp add: pfs_eval nested_section_header_def)

lemma nested_image_data_write:
  "write_file env_ok (section_name 0 ''.'' ''data'') (read_bytes nested_image 88 105)
     \<lparr> console = [section_info False 0 nested_section_header], files = [] \<rparr>
   = (\<lparr> console = [section_info False 0 nested_section_header],
        files = [(''section_0_.data'', Some inner_image, 0)] \<rparr>, Inr 0)"
  by (simp add: nested_image_block) (simp add: pfs_eval nested_section_header_def)

lemma nested_image_pass:
  "pfs_extract stable_sort env_ok nested_image (Some 88) 105 (Some ''section_0_.payload'')
     \<lparr> console = [section_info False 0 nested_section_header],
        files = [(''section_0_.data'', Some inner_image, 0)] \<rparr>
   = (\<lparr> console = [section_info False 0 nested_section_header,
          FileHeaderInfo True PFS_HEADER_SIGNATURE 1 73,
          FileFooterInfo True PFS_FOOTER_SIGNATURE 0 73,
          SectionHeaderInfo True 0 ''00000000-0000-0000-0000-000000000000''
             ''00000000-0000-0000-0000-000000000000'' 0 1 0 0],
        files = [(''section_0_.data'', Some inner_image, 0),
                 (''section_0_.payload'', Some [], 0)] \<rparr>, Inr 0)"
  by (simp add: pfs_eval nested_image_def inner_image_def stable_sort_def
      nested_section_header_def)

theorem nested_parse_is_chunk_collect_witness:
  "section_body stable_sort env_ok nested_image False 16 nested_section_header 0 [] empty_out =
     (\<lparr> console = [section_info False 0 nested_section_header,
          FileHeaderInfo True PFS_HEADER_SIGNATURE 1 73,
          FileFooterInfo True PFS_FOOTER_SIGNATURE 0 73,
          SectionHeaderInfo True 0 ''00000000-0000-0000-0000-000000000000''
             ''00000000-0000-0000-0000-000000000000'' 0 1 0 0],
        files = [(''section_0_.data'', Some inner_image, 0),
                 (''section_0_.payload'', Some [], 0)] \<rparr>, Inr [])"
proof -
  have sz: "sh_DataSize nested_section_header \<noteq> 0" "unat (sh_DataSize nested_section_header) = 105"
    by (simp_all add: nested_section_header_def)
  have nm: "section_name 0 ''.'' ''payload'' = ''section_0_.payload''"
    by (simp add: pfs_eval)
  from nested_parse_is_chunk_collect [of nested_section_header nested_image 16 0 empty_out "''.''"
      _ env_ok _ 0 stable_sort "[]", OF sz(1)]
    nested_image_magic nested_image_version nested_image_data_write nested_image_pass sz(2) nm
  show ?thesis
    by (simp add: SECTION_HEADER_SIZE_def)
       (simp add: pfs_eval nested_section_header_def)
qed

text \<open>
  The claim as stated fails on \<open>nested_image\<close>: the nested container has a section
  with a data-signature block, a Normal pass over it would write \<open>section_0_.sign\<close>;
  the pass run on it prints the subsection banner and writes the payload file only.
\<close>

theorem nested_pass_is_not_normal_counterexample:
  "read_bytes nested_image 88 105 = Some inner_image \<and>
   take 8 inner_image = bytes_of ''PFS.HDR.'' \<and>
   map_option sh_DataSignatureSize (read_section_header inner_image 16) = Some 1 \<and>
   pfs_main stable_sort env_ok nested_image =
     (\<lparr> console =
          [FileHeaderInfo False PFS_HEADER_SIGNATURE 1 177,
           FileFooterInfo False PFS_FOOTER_SIGNATURE 0 177,
           SectionHeaderInfo False 0 ''00000000-0000-0000-0000-000000000000''
             ''00000000-0000-0000-0000-000000000000'' 105 0 0 0,
           FileHeaderInfo True PFS_HEADER_SIGNATURE 1 73,
           FileFooterInfo True PFS_FOOTER_SIGNATURE 0 73,
           SectionHeaderInfo True 0 ''00000000-0000-0000-0000-000000000000''
             ''00000000-0000-0000-0000-000000000000'' 0 1 0 0],
        files = [(''section_0_.data'', Some inner_image, 0),
                 (''section_0_.payload'', Some [], 0)] \<rparr>, Inr 0)"
  by (simp add: nested_image_block)
     (simp add: pfs_eval nested_image_def inner_image_def stable_sort_def)

lemma after_data_prefix':
  assumes "after_data env mem isSubsection sectionNum version ptr sh w = (s', r)"
  shows "prefix (files (fst w)) (files s')"
  using assms after_data_prefix [of env mem isSubsection sectionNum version ptr sh "fst w" "snd w"]
  by simp

text \<open>
  C6 (as amended). For a Normal-mode section whose non-empty data block lies in the
  buffer and begins with the 8 bytes "PFS.HDR.", the raw bytes are written first as
  \<open>section_<index>_<version>data\<close>; only then is the block parsed, by a call with the
  name \<open>section_<index>_<version>payload\<close>. The raw entry stays in the output sink
  whatever the nested parse does. The payload is written, right after the raw data,
  exactly when the nested parse returns 0. When the nested parse returns 1 (the block
  is refused as a container) nothing is added, and whenever the nested parse returns,
  with 0 or with 1, the loop body goes on with the remaining blocks of the section.
  Nothing is said here about a nested parse that does not return.
\<close>

theorem raw_data_is_written_before_nested_parse:
  assumes "sh_DataSize sh \<noteq> 0"
      and "rd64 mem (sectionHeader + SECTION_HEADER_SIZE) = Some PFS_HEADER_SIGNATURE"
      and "read_bytes mem (sectionHeader + SECTION_HEADER_SIZE) (unat (sh_DataSize sh)) = Some raw"
      and "decode_version sh (say (section_info False sectionNum sh) s) = (version, s2)"
      and "section_body srt env mem False sectionHeader sh sectionNum chunks s = (s', r)"
  shows "\<exists>s3 rc s4 rn.
           write_file env (section_name sectionNum version ''data'') (Some raw) s2 = (s3, Inr rc) \<and>
           files s3 = files s @ [(section_name sectionNum version ''data'', Some raw, rc)] \<and>
           pfs_extract srt env mem (Some (sectionHeader + SECTION_HEADER_SIZE))
             (unat (sh_DataSize sh)) (Some (section_name sectionNum version ''payload'')) s3
             = (s4, rn) \<and>
           prefix (files s3) (files s4) \<and> prefix (files s4) (files s') \<and>
           (rn = Inr 0 \<longrightarrow>
              (\<exists>bytes rc'. files s4 =
                 files s3 @ [(section_name sectionNum version ''payload'', Some bytes, rc')])) \<and>
           (rn \<noteq> Inr 0 \<longrightarrow> files s4 = files s3) \<and>
           (\<forall>rcn. rn = Inr rcn \<longrightarrow>
              (s', r) = after_data env mem False sectionNum version
                          (sectionHeader + SECTION_HEADER_SIZE) sh (s4, Inr chunks))"
proof -
  let ?ptr = "sectionHeader + SECTION_HEADER_SIZE"
  let ?payload = "section_name sectionNum version ''payload''"
  obtain s3 w where w: "write_file env (section_name sectionNum version ''data'') (Some raw) s2 = (s3, w)"
    by (cases "write_file env (section_name sectionNum version ''data'') (Some raw) s2") auto
  from write_file_cases [OF w] obtain rc where
    rc: "w = Inr rc" "files s3 = files s2 @ [(section_name sectionNum version ''data'', Some raw, rc)]"
    by auto
  have f2: "files s2 = files s"
    using decode_version_files' [OF assms(4)] by simp
  obtain s4 rn where n: "pfs_extract srt env mem (Some ?ptr) (unat (sh_DataSize sh)) (Some ?payload) s3 = (s4, rn)"
    by (cases "pfs_extract srt env mem (Some ?ptr) (unat (sh_DataSize sh)) (Some ?payload) s3") auto
  then have c: "chunk_pass srt env mem (Some ?ptr) (unat (sh_DataSize sh)) ?payload s3 = (s4, rn)"
    by (simp add: pfs_extract_subsection)
  have body: "(s', r) =
      (case (s4, rn) of
         (s4, Inl e) \<Rightarrow> (s4, Inl e)
       | (s4, Inr rc') \<Rightarrow> after_data env mem False sectionNum version ?ptr sh (s4, Inr chunks))"
    using assms(5) normal_body_nested [OF assms(1,2,4), of env s3 rc srt chunks] w rc(1) c
    by (simp add: section_body_normal assms(3))
  have p34: "prefix (files s3) (files s4)"
    using pfs_extract_prefix [OF n] .
  have p4: "prefix (files s4) (files s')"
  proof (cases rn)
    case (Inl e)
    with body show ?thesis by simp
  next
    case (Inr rcn)
    with body have "after_data env mem False sectionNum version ?ptr sh (s4, Inr chunks) = (s', r)"
      by simp
    from after_data_prefix' [OF this] show ?thesis by simp
  qed
  have ok: "rn = Inr 0 \<longrightarrow> (\<exists>bytes rc'. files s4 = files s3 @ [(?payload, Some bytes, rc')])"
    using chunk_pass_files [OF c] by auto
  have bad: "rn \<noteq> Inr 0 \<longrightarrow> files s4 = files s3"
    using chunk_pass_files [OF c] by auto
  have cont: "\<forall>rcn. rn = Inr rcn \<longrightarrow>
      (s', r) = after_data env mem False sectionNum version ?ptr sh (s4, Inr chunks)"
    using body by simp
  from w rc f2 n p34 p4 ok bad cont show ?thesis
    by (intro exI [of _ s3] exI [of _ rc] exI [of _ s4] exI [of _ rn]) simp
qed

lemma nested_image_body:
  "section_body stable_sort env_ok nested_image False 16 nested_section_header 0 [] empty_out =
     (\<lparr> console = [section_info False 0 nested_section_header,
          FileHeaderInfo True PFS_HEADER_SIGNATURE 1 73,
          FileFooterInfo True PFS_FOOTER_SIGNATURE 0 73,
          SectionHeaderInfo True 0 ''00000000-0000-0000-0000-000000000000''
             ''00000000-0000-0000-0000-000000000000'' 0 1 0 0],
        files = [(''section_0_.data'', Some inner_image, 0),
                 (''section_0_.payload'', Some [], 0)] \<rparr>, Inr [])"
  by (simp add: pfs_eval nested_image_def inner_image_def stable_sort_def
      nested_section_header_def)

theorem raw_data_is_written_before_nested_parse_witness:
  "\<exists>s3 rc s4 rn.
     write_file env_ok ''section_0_.data'' (Some inner_image)
       \<lparr> console = [section_info False 0 nested_section_header], files = [] \<rparr> = (s3, Inr rc) \<and>
     files s3 = [(''section_0_.data'', Some inner_image, rc)] \<and>
     pfs_extract stable_sort env_ok nested_image (Some 88) 105 (Some ''section_0_.payload'') s3
       = (s4, rn) \<and>
     prefix (files s3) (files s4) \<and>
     prefix (files s4) [(''section_0_.data'', Some inner_image, 0),
                        (''section_0_.payload'', Some [], 0)] \<and>
     (rn = Inr 0 \<longrightarrow>
        (\<exists>bytes rc'. files s4 = files s3 @ [(''section_0_.payload'', Some bytes, rc')])) \<and>
     (rn \<noteq> Inr 0 \<longrightarrow> files s4 = files s3)"
proof -
  have sz: "sh_DataSize nested_section_header \<noteq> 0" "unat (sh_DataSize nested_section_header) = 105"
    by (simp_all add: nested_section_header_def)
  have nm: "section_name 0 ''.'' ''payload'' = ''section_0_.payload''"
    "section_name 0 ''.'' ''data'' = ''section_0_.data''"
    by (simp_all add: pfs_eval)
  have m: "rd64 nested_image (16 + SECTION_HEADER_SIZE) = Some PFS_HEADER_SIGNATURE"
    using nested_image_magic by (simp add: SECTION_HEADER_SIZE_def)
  have b: "read_bytes nested_image (16 + SECTION_HEADER_SIZE)
             (unat (sh_DataSize nested_section_header)) = Some inner_image"
    using nested_image_block by (simp add: SECTION_HEADER_SIZE_def sz)
  from raw_data_is_written_before_nested_parse [OF sz(1) m b nested_image_version
      nested_image_body]
  show ?thesis
    by (simp add: nm sz SECTION_HEADER_SIZE_def empty_out_def) blast
qed

text \<open>
  The claim as stated fails on \<open>failed_nested_image\<close>: the data block of its section
  begins with "PFS.HDR." and its header version is 0, so the nested parse returns 1;
  the raw data file is written and no payload file.
\<close>

theorem failed_nested_parse_writes_no_payload_counterexample:
  "read_bytes failed_nested_image 88 32 = Some bad_version_block \<and>
   take 8 bad_version_block = bytes_of ''PFS.HDR.'' \<and>
   pfs_main stable_sort env_ok failed_nested_image =
     (\<lparr> console =
          [FileHeaderInfo False PFS_HEADER_SIGNATURE 1 104,
           FileFooterInfo False PFS_FOOTER_SIGNATURE 0 104,
           SectionHeaderInfo False 0 ''00000000-0000-0000-0000-000000000000''
             ''00000000-0000-0000-0000-000000000000'' 32 0 0 0,
           FileHeaderInfo True PFS_HEADER_SIGNATURE 0 0,
           UnknownHeaderVersion 0],
        files = [(''section_0_.data'', Some bad_version_block, 0)] \<rparr>, Inr 0)"
  by (simp add: pfs_eval failed_nested_image_def bad_version_block_def stable_sort_def)

text \<open>
  A nested parse that does not return. On \<open>short_chunk_image\<close> every read stays inside
  the buffer; the nested pass meets a chunk of 10 bytes and hands the vector
  constructor of line 265 a range that ends before it starts. The run ends there, after
  the raw data file and before the signature block of the section.
\<close>

lemma short_chunk_image_run:
  "length short_chunk_image = 318 \<and>
   pfs_main stable_sort env_ok short_chunk_image =
     (\<lparr> console =
          [FileHeaderInfo False PFS_HEADER_SIGNATURE 1 286,
           FileFooterInfo False PFS_FOOTER_SIGNATURE 0 286,
           SectionHeaderInfo False 0 ''00000000-0000-0000-0000-000000000000''
             ''00000000-0000-0000-0000-000000000000'' 114 100 0 0,
           FileHeaderInfo True PFS_HEADER_SIGNATURE 1 82,
           FileFooterInfo True PFS_FOOTER_SIGNATURE 0 82,
           SectionHeaderInfo True 0 ''00000000-0000-0000-0000-000000000000''
             ''00000000-0000-0000-0000-000000000000'' 10 0 0 0],
        files = [(''section_0_.data'', Some short_chunk_inner, 0)] \<rparr>, Inl InvalidRange)"
  by (simp add: pfs_eval short_chunk_image_def short_chunk_inner_def)

subsection \<open>Two runs that differ in the console and in the file system\<close>

text \<open>
  Two runs on the same buffer are compared: the first on output state \<open>s\<close> with file
  system \<open>env1\<close>, the second on \<open>t\<close> with \<open>env2\<close>. The states agree on the calls of the
  output sink made so far; wherever the first file system refuses to create a file,
  so does the second (a file that cannot be created is not read from the buffer). If
  the first run returns, the second returns the same value after the same calls.
\<close>

lemma sink_calls_length: "sink_calls s = sink_calls t \<Longrightarrow> length (files s) = length (files t)"
  by (metis length_map sink_calls_def)

lemma sink_calls_say [simp]: "sink_calls (say m s) = sink_calls s"
  by (simp add: sink_calls_def)

lemma write_file_sim:
  assumes "\<forall>k. env1 k = CreateFailed \<longrightarrow> env2 k = CreateFailed"
      and "sink_calls s = sink_calls t"
      and "write_file env1 name buf s = (s', Inr rc)"
  shows "\<exists>t' rc'. write_file env2 name buf t = (t', Inr rc') \<and> sink_calls s' = sink_calls t'"
proof -
  from assms(2) have l: "length (files s) = length (files t)" by (rule sink_calls_length)
  from write_file_cases [OF assms(3)] have
    f: "files s' = files s @ [(name, buf, rc)]" and
    n: "buf = None \<longrightarrow> env1 (length (files s)) = CreateFailed"
    by auto
  from n assms(1) l have n2: "buf = None \<longrightarrow> env2 (length (files t)) = CreateFailed"
    by auto
  obtain t' w where w: "write_file env2 name buf t = (t', w)"
    by (cases "write_file env2 name buf t") auto
  from write_file_cases [OF w] n2 obtain rc' where
    "w = Inr rc'" "files t' = files t @ [(name, buf, rc')]"
    by auto
  with w f assms(2) show ?thesis by (auto simp: sink_calls_def)
qed

lemma emit_block_sim:
  assumes "\<forall>k. env1 k = CreateFailed \<longrightarrow> env2 k = CreateFailed"
      and "sink_calls s = sink_calls t"
      and "emit_block env1 mem isSubsection name ptr sz s = (s', Inr u)"
  shows "\<exists>t'. emit_block env2 mem isSubsection name ptr sz t = (t', Inr u) \<and>
           sink_calls s' = sink_calls t'"
proof (cases "sz \<noteq> 0 \<and> \<not> isSubsection")
  case False
  with assms show ?thesis by (auto simp: emit_block_def)
next
  case True
  with assms(3) obtain rc where
    "write_file env1 name (read_bytes mem ptr (unat sz)) s = (s', Inr rc)"
    by (auto simp: emit_block_def split: prod.splits sum.splits)
  from write_file_sim [OF assms(1,2) this] True show ?thesis
    by (auto simp: emit_block_def)
qed

lemma emit_rest_sim:
  assumes "\<forall>k. env1 k = CreateFailed \<longrightarrow> env2 k = CreateFailed"
      and "sink_calls s = sink_calls t"
      and "emit_rest env1 mem isSubsection sectionNum version ptr sh s = (s', Inr u)"
  shows "\<exists>t'. emit_rest env2 mem isSubsection sectionNum version ptr sh t = (t', Inr u) \<and>
           sink_calls s' = sink_calls t'"
proof -
  from assms(3) obtain s1 s2 where
    a: "emit_block env1 mem isSubsection (section_name sectionNum version ''sign'')
             ptr (sh_DataSignatureSize sh) s = (s1, Inr ())" and
    b: "emit_block env1 mem isSubsection (section_name sectionNum version ''meta'')
             (ptr + unat (sh_DataSignatureSize sh)) (sh_MetadataSize sh) s1 = (s2, Inr ())" and
    c: "emit_block env1 mem isSubsection (section_name sectionNum version ''mtsg'')
             (ptr + unat (sh_DataSignatureSize sh) + unat (sh_MetadataSize sh))
             (sh_MetadataSignatureSize sh) s2 = (s', Inr u)"
    by (auto simp: emit_rest_def split: prod.splits sum.splits)
  from emit_block_sim [OF assms(1,2) a] obtain t1 where
    a': "emit_block env2 mem isSubsection (section_name sectionNum version ''sign'')
             ptr (sh_DataSignatureSize sh) t = (t1, Inr ())" "sink_calls s1 = sink_calls t1"
    by auto
  from emit_block_sim [OF assms(1) a'(2) b] obtain t2 where
    b': "emit_block env2 mem isSubsection (section_name sectionNum version ''meta'')
             (ptr + unat (sh_DataSignatureSize sh)) (sh_MetadataSize sh) t1 = (t2, Inr ())"
        "sink_calls s2 = sink_calls t2"
    by auto
  from emit_block_sim [OF assms(1) b'(2) c] obtain t' where
    "emit_block env2 mem isSubsection (section_name sectionNum version ''mtsg'')
             (ptr + unat (sh_DataSignatureSize sh) + unat (sh_MetadataSize sh))
             (sh_MetadataSignatureSize sh) t2 = (t', Inr u)" "sink_calls s' = sink_calls t'"
    by auto
  with a' b' show ?thesis by (auto simp: emit_rest_def)
qed

lemma after_data_sim:
  assumes "\<forall>k. env1 k = CreateFailed \<longrightarrow> env2 k = CreateFailed"
      and "sink_calls s = sink_calls t"
      and "after_data env1 mem isSubsection sectionNum version ptr sh (s, Inr chunks) = (s', Inr c)"
  shows "\<exists>t'. after_data env2 mem isSubsection sectionNum version ptr sh (t, Inr chunks)
                 = (t', Inr c) \<and> sink_calls s' = sink_calls t'"
proof -
  from assms(3) obtain u where
    a: "emit_rest env1 mem isSubsection sectionNum version (ptr + unat (sh_DataSize sh)) sh s
          = (s', Inr u)" and c: "c = chunks"
    by (auto simp: after_data_def split: prod.splits sum.splits)
  from emit_rest_sim [OF assms(1,2) a] c show ?thesis
    by (auto simp: after_data_def)
qed

lemma finish_pass_sim:
  assumes "\<forall>k. env1 k = CreateFailed \<longrightarrow> env2 k = CreateFailed"
      and "sink_calls s = sink_calls t"
      and "finish_pass srt env1 filename (s, Inr chunks) = (s', Inr rc)"
  shows "\<exists>t'. finish_pass srt env2 filename (t, Inr chunks) = (t', Inr rc) \<and>
           sink_calls s' = sink_calls t'"
proof (cases filename)
  case None
  with assms show ?thesis by (auto simp: finish_pass_def)
next
  case (Some name)
  with assms(3) obtain rc1 where
    w: "write_file env1 name (Some (concat (map data (srt chunks)))) s = (s', Inr rc1)"
    and rc: "rc = 0"
    by (auto simp: finish_pass_def split: prod.splits sum.splits)
  from write_file_sim [OF assms(1,2) w] Some rc show ?thesis
    by (auto simp: finish_pass_def)
qed

lemma decode_version_sim:
  assumes "sink_calls s = sink_calls t" and "decode_version sh s = (version, s')"
  shows "\<exists>t'. decode_version sh t = (version, t') \<and> sink_calls s' = sink_calls t'"
  using assms
  by (auto simp: decode_version_def sink_calls_def split: prod.splits if_splits)

lemma validate_sim:
  assumes "sink_calls s = sink_calls t"
  shows "validate mem buffer bufferSize isSubsection s = Inl (s', r) \<Longrightarrow>
           \<exists>t'. validate mem buffer bufferSize isSubsection t = Inl (t', r) \<and>
                 sink_calls s' = sink_calls t'"
    and "validate mem buffer bufferSize isSubsection s = Inr (dataStart, dataEnd, s4) \<Longrightarrow>
           \<exists>t4. validate mem buffer bufferSize isSubsection t = Inr (dataStart, dataEnd, t4) \<and>
                 sink_calls s4 = sink_calls t4"
  using assms
  by (auto simp: validate_def Let_def split: option.splits if_splits)

lemma chunk_body_sim:
  assumes "sink_calls s = sink_calls t"
      and "chunk_body mem sectionHeader sh sectionNum chunks s = (s', r)"
  shows "\<exists>t'. chunk_body mem sectionHeader sh sectionNum chunks t = (t', r) \<and>
           sink_calls s' = sink_calls t'"
proof -
  obtain version s2 where
    v: "decode_version sh (say (section_info True sectionNum sh) s) = (version, s2)"
    by (cases "decode_version sh (say (section_info True sectionNum sh) s)") auto
  have "sink_calls (say (section_info True sectionNum sh) s) =
        sink_calls (say (section_info True sectionNum sh) t)"
    using assms(1) by simp
  from decode_version_sim [OF this v] obtain t2 where
    "decode_version sh (say (section_info True sectionNum sh) t) = (version, t2)"
    "sink_calls s2 = sink_calls t2"
    by auto
  with assms(2) v show ?thesis
    by (auto simp: chunk_body_def split: if_splits sum.splits)
qed

lemma chunk_walk_sim:
  "sink_calls s = sink_calls t \<Longrightarrow>
   chunk_walk mem dataEnd sectionHeader sectionNum chunks s = (s', r) \<Longrightarrow>
   \<exists>t'. chunk_walk mem dataEnd sectionHeader sectionNum chunks t = (t', r) \<and>
        sink_calls s' = sink_calls t'"
proof (induction mem dataEnd sectionHeader sectionNum chunks s arbitrary: t
       rule: chunk_walk.induct)
  case (1 mem dataEnd sectionHeader sectionNum chunks s)
  from "1.prems"(2) show ?case
  proof (cases rule: chunk_walk_cases)
    case stop
    with "1.prems"(1) show ?thesis by (subst chunk_walk.simps) simp
  next
    case unreadable
    with "1.prems"(1) show ?thesis by (subst chunk_walk.simps) simp
  next
    case (fault sh e)
    from chunk_body_sim [OF "1.prems"(1) fault(3)] fault(1,2,4) show ?thesis
      by (subst chunk_walk.simps) auto
  next
    case (step sh s1 chunks')
    from chunk_body_sim [OF "1.prems"(1) step(3)] obtain t1 where
      b: "chunk_body mem sectionHeader sh sectionNum chunks t = (t1, Inr chunks')"
         "sink_calls s1 = sink_calls t1"
      by auto
    from "1.IH" [OF step(1,2) step(3) [symmetric] refl b(2) step(4)] b(1) step(1,2)
    show ?thesis by (subst chunk_walk.simps) auto
  qed
qed

lemma chunk_pass_sim:
  assumes "\<forall>k. env1 k = CreateFailed \<longrightarrow> env2 k = CreateFailed"
      and "sink_calls s = sink_calls t"
      and "chunk_pass srt env1 mem buffer bufferSize name s = (s', Inr rc)"
  shows "\<exists>t'. chunk_pass srt env2 mem buffer bufferSize name t = (t', Inr rc) \<and>
           sink_calls s' = sink_calls t'"
proof (cases "validate mem buffer bufferSize True s")
  case (Inl a)
  obtain sa ra where a: "a = (sa, ra)" by (cases a) auto
  from validate_sim(1) [OF assms(2) Inl [unfolded a]] assms(3) Inl a show ?thesis
    by (auto simp: chunk_pass_def)
next
  case (Inr b)
  obtain dataStart dataEnd s4 where b: "b = (dataStart, dataEnd, s4)" by (cases b) auto
  from validate_sim(2) [OF assms(2) Inr [unfolded b]] obtain t4 where
    v: "validate mem buffer bufferSize True t = Inr (dataStart, dataEnd, t4)"
       "sink_calls s4 = sink_calls t4"
    by auto
  obtain s5 w where w: "chunk_walk mem dataEnd dataStart 0 [] s4 = (s5, w)"
    by (cases "chunk_walk mem dataEnd dataStart 0 [] s4") auto
  from chunk_walk_sim [OF v(2) w] obtain t5 where
    w': "chunk_walk mem dataEnd dataStart 0 [] t4 = (t5, w)" "sink_calls s5 = sink_calls t5"
    by auto
  from assms(3) Inr b w obtain chunks where
    c: "w = Inr chunks" "finish_pass srt env1 (Some name) (s5, Inr chunks) = (s', Inr rc)"
    by (cases w) (auto simp: chunk_pass_def finish_pass_def)
  from finish_pass_sim [OF assms(1) w'(2) c(2)] v(1) w'(1) c(1) show ?thesis
    by (auto simp: chunk_pass_def)
qed

lemma normal_body_sim:
  assumes "\<forall>k. env1 k = CreateFailed \<longrightarrow> env2 k = CreateFailed"
      and "sink_calls s = sink_calls t"
      and "normal_body srt env1 mem sectionHeader sh sectionNum chunks s = (s', Inr c)"
  shows "\<exists>t'. normal_body srt env2 mem sectionHeader sh sectionNum chunks t = (t', Inr c) \<and>
           sink_calls s' = sink_calls t'"
proof -
  let ?ptr = "sectionHeader + SECTION_HEADER_SIZE"
  obtain version s2 where
    v: "decode_version sh (say (section_info False sectionNum sh) s) = (version, s2)"
    by (cases "decode_version sh (say (section_info False sectionNum sh) s)") auto
  have "sink_calls (say (section_info False sectionNum sh) s) =
        sink_calls (say (section_info False sectionNum sh) t)"
    using assms(2) by simp
  from decode_version_sim [OF this v] obtain t2 where
    v': "decode_version sh (say (section_info False sectionNum sh) t) = (version, t2)"
        "sink_calls s2 = sink_calls t2"
    by auto
  show ?thesis
  proof (cases "sh_DataSize sh = 0")
    case True
    with assms(3) v have "after_data env1 mem False sectionNum version ?ptr sh (s2, Inr chunks)
        = (s', Inr c)"
      by (simp add: normal_body_def Let_def)
    from after_data_sim [OF assms(1) v'(2) this] True v'(1) show ?thesis
      by (simp add: normal_body_def Let_def)
  next
    case False
    with assms(3) v obtain s3 rc where
      w: "write_file env1 (section_name sectionNum version ''data'')
            (read_bytes mem ?ptr (unat (sh_DataSize sh))) s2 = (s3, Inr rc)"
      by (auto simp: normal_body_def Let_def split: prod.splits sum.splits)
    from write_file_sim [OF assms(1) v'(2) w] obtain t3 rc' where
      w': "write_file env2 (section_name sectionNum version ''data'')
            (read_bytes mem ?ptr (unat (sh_DataSize sh))) t2 = (t3, Inr rc')"
          "sink_calls s3 = sink_calls t3"
      by auto
    from assms(3) v w False obtain sig where sig: "rd64 mem ?ptr = Some sig"
      by (auto simp: normal_body_def Let_def split: option.splits)
    show ?thesis
    proof (cases "sig = PFS_HEADER_SIGNATURE")
      case no: False
      with assms(3) v w False sig
      have "after_data env1 mem False sectionNum version ?ptr sh (s3, Inr chunks) = (s', Inr c)"
        by (simp add: normal_body_def Let_def)
      from after_data_sim [OF assms(1) w'(2) this] False v'(1) w'(1) sig no show ?thesis
        by (simp add: normal_body_def Let_def)
    next
      case yes: True
      obtain s4 rn where n: "chunk_pass srt env1 mem (Some ?ptr) (unat (sh_DataSize sh))
          (section_name sectionNum version ''payload'') s3 = (s4, rn)"
        by (cases "chunk_pass srt env1 mem (Some ?ptr) (unat (sh_DataSize sh))
          (section_name sectionNum version ''payload'') s3") auto
      with assms(3) v w False sig yes obtain rc4 where
        rn: "rn = Inr rc4" and
        a: "after_data env1 mem False sectionNum version ?ptr sh (s4, Inr chunks) = (s', Inr c)"
        by (cases rn) (auto simp: normal_body_def Let_def)
      from chunk_pass_sim [OF assms(1) w'(2) n [unfolded rn]] obtain t4 where
        n': "chunk_pass srt env2 mem (Some ?ptr) (unat (sh_DataSize sh))
              (section_name sectionNum version ''payload'') t3 = (t4, Inr rc4)"
            "sink_calls s4 = sink_calls t4"
        by auto
      from after_data_sim [OF assms(1) n'(2) a] False v'(1) w'(1) sig yes n'(1) show ?thesis
        by (simp add: normal_body_def Let_def)
    qed
  qed
qed

lemma normal_walk_sim:
  "\<forall>k. env1 k = CreateFailed \<longrightarrow> env2 k = CreateFailed \<Longrightarrow>
   sink_calls s = sink_calls t \<Longrightarrow>
   normal_walk srt env1 mem dataEnd sectionHeader sectionNum chunks s = (s', Inr c) \<Longrightarrow>
   \<exists>t'. normal_walk srt env2 mem dataEnd sectionHeader sectionNum chunks t = (t', Inr c) \<and>
        sink_calls s' = sink_calls t'"
proof (induction srt env1 mem dataEnd sectionHeader sectionNum chunks s arbitrary: t
       rule: normal_walk.induct)
  case (1 srt env1 mem dataEnd sectionHeader sectionNum chunks s)
  from "1.prems"(3) show ?case
  proof (cases rule: normal_walk_cases)
    case stop
    with "1.prems"(2) show ?thesis by (subst normal_walk.simps) simp
  next
    case (step sh s1 chunks')
    from normal_body_sim [OF "1.prems"(1,2) step(3)] obtain t1 where
      b: "normal_body srt env2 mem sectionHeader sh sectionNum chunks t = (t1, Inr chunks')"
         "sink_calls s1 = sink_calls t1"
      by auto
    from "1.IH" [OF step(1,2) step(3) [symmetric] refl "1.prems"(1) b(2) step(4)] b(1) step(1,2)
    show ?thesis by (subst normal_walk.simps) auto
  qed simp_all
qed

lemma walk_sim:
  assumes "\<forall>k. env1 k = CreateFailed \<longrightarrow> env2 k = CreateFailed"
      and "sink_calls s = sink_calls t"
      and "walk srt env1 mem isSubsection dataEnd sectionHeader sectionNum chunks s = (s', Inr c)"
  shows "\<exists>t'. walk srt env2 mem isSubsection dataEnd sectionHeader sectionNum chunks t
                 = (t', Inr c) \<and> sink_calls s' = sink_calls t'"
proof (cases isSubsection)
  case True
  with assms(3) chunk_walk_sim [OF assms(2)] show ?thesis by (simp add: walk_subsection)
next
  case False
  with assms(3) normal_walk_sim [OF assms(1,2)] show ?thesis by (simp add: walk_normal)
qed

lemma pass_sim:
  assumes "\<forall>k. env1 k = CreateFailed \<longrightarrow> env2 k = CreateFailed"
      and "sink_calls s = sink_calls t"
      and "finish_pass srt env1 filename
             (walk srt env1 mem isSubsection dataEnd dataStart 0 [] s) = (s', Inr rc)"
  shows "\<exists>t'. finish_pass srt env2 filename
             (walk srt env2 mem isSubsection dataEnd dataStart 0 [] t) = (t', Inr rc) \<and>
           sink_calls s' = sink_calls t'"
proof -
  obtain s5 w where w: "walk srt env1 mem isSubsection dataEnd dataStart 0 [] s = (s5, w)"
    by (cases "walk srt env1 mem isSubsection dataEnd dataStart 0 [] s") auto
  with assms(3) obtain chunks where c: "w = Inr chunks"
    by (cases w) (auto simp: finish_pass_def)
  from walk_sim [OF assms(1,2) w [unfolded c]] obtain t5 where
    w': "walk srt env2 mem isSubsection dataEnd dataStart 0 [] t = (t5, Inr chunks)"
        "sink_calls s5 = sink_calls t5"
    by auto
  from assms(3) w c have "finish_pass srt env1 filename (s5, Inr chunks) = (s', Inr rc)" by simp
  from finish_pass_sim [OF assms(1) w'(2) this] w'(1) show ?thesis by simp
qed

lemma pfs_extract_sim:
  assumes "\<forall>k. env1 k = CreateFailed \<longrightarrow> env2 k = CreateFailed"
      and "sink_calls s = sink_calls t"
      and "pfs_extract srt env1 mem buffer bufferSize filename s = (s', Inr rc)"
  shows "\<exists>t'. pfs_extract srt env2 mem buffer bufferSize filename t = (t', Inr rc) \<and>
           sink_calls s' = sink_calls t'"
proof (cases "validate mem buffer bufferSize (filename \<noteq> None) s")
  case (Inl a)
  obtain sa ra where a: "a = (sa, ra)" by (cases a) auto
  from validate_sim(1) [OF assms(2) Inl [unfolded a]] assms(3) Inl a show ?thesis
    by (auto simp: pfs_extract_validate)
next
  case (Inr b)
  obtain dataStart dataEnd s4 where b: "b = (dataStart, dataEnd, s4)" by (cases b) auto
  from validate_sim(2) [OF assms(2) Inr [unfolded b]] obtain t4 where
    v: "validate mem buffer bufferSize (filename \<noteq> None) t = Inr (dataStart, dataEnd, t4)"
       "sink_calls s4 = sink_calls t4"
    by auto
  from assms(3) Inr b have "finish_pass srt env1 filename
      (walk srt env1 mem (filename \<noteq> None) dataEnd dataStart 0 [] s4) = (s', Inr rc)"
    by (simp add: pfs_extract_validate)
  from pass_sim [OF assms(1) v(2) this] v(1) show ?thesis
    by (simp add: pfs_extract_validate)
qed

subsection \<open>Failures of the output sink\<close>

lemma nested_image_run:
  "pfs_extract stable_sort env_ok nested_image (Some 0) 209 None empty_out =
     (\<lparr> console =
          [FileHeaderInfo False PFS_HEADER_SIGNATURE 1 177,
           FileFooterInfo False PFS_FOOTER_SIGNATURE 0 177,
           SectionHeaderInfo False 0 ''00000000-0000-0000-0000-000000000000''
             ''00000000-0000-0000-0000-000000000000'' 105 0 0 0,
           FileHeaderInfo True PFS_HEADER_SIGNATURE 1 73,
           FileFooterInfo True PFS_FOOTER_SIGNATURE 0 73,
           SectionHeaderInfo True 0 ''00000000-0000-0000-0000-000000000000''
             ''00000000-0000-0000-0000-000000000000'' 0 1 0 0],
        files = [(''section_0_.data'', Some inner_image, 0),
                 (''section_0_.payload'', Some [], 0)] \<rparr>, Inr 0)"
  by (simp add: pfs_eval nested_image_def inner_image_def stable_sort_def)

text \<open>
  C9. \<open>write_file\<close> reports a failure on the console and returns 1 or 2; no caller
  looks at the value. If \<open>pfs_extract\<close> returns on a file system where every write
  succeeds, it returns the same value on every file system, after the same calls of
  the output sink in the same order: the blocks and sections after a failed write
  are processed as before.
\<close>

theorem sink_failure_never_aborts:
  assumes "pfs_extract srt env_ok mem buffer bufferSize filename s = (s1, Inr rc)"
  shows "(\<exists>s2. pfs_extract srt env mem buffer bufferSize filename s = (s2, Inr rc) \<and>
            sink_calls s2 = sink_calls s1) \<and>
         (env (length (files s)) = CreateFailed \<longrightarrow>
            write_file env name buf s =
              (s\<lparr> console := console s @ [CantCreate name],
                  files := files s @ [(name, buf, 1)] \<rparr>, Inr 1)) \<and>
         (env (length (files s)) = WriteFailed \<longrightarrow>
            write_file env name (Some bytes) s =
              (s\<lparr> console := console s @ [CantWrite name],
                  files := files s @ [(name, Some bytes, 2)] \<rparr>, Inr 2))"
proof -
  have "\<forall>k. env_ok k = CreateFailed \<longrightarrow> env k = CreateFailed"
    by (simp add: env_ok_def)
  from pfs_extract_sim [OF this refl assms] obtain s2 where
    "pfs_extract srt env mem buffer bufferSize filename s = (s2, Inr rc)"
    "sink_calls s2 = sink_calls s1"
    by auto
  then show ?thesis
    by (simp add: write_file_def)
qed

theorem sink_failure_never_aborts_witness:
  "(\<exists>s2. pfs_extract stable_sort fail_first nested_image (Some 0) 209 None empty_out = (s2, Inr 0) \<and>
      sink_calls s2 = [(''section_0_.data'', Some inner_image), (''section_0_.payload'', Some [])]) \<and>
   write_file fail_first ''a'' None empty_out =
     (\<lparr> console = [CantCreate ''a''], files = [(''a'', None, 1)] \<rparr>, Inr 1)"
  using sink_failure_never_aborts [OF nested_image_run, of fail_first "''a''" None]
  by (simp add: sink_calls_def fail_first_def empty_out_def)

subsection \<open>Footer mismatches\<close>

lemma validate_ok:
  assumes "FILE_HEADER_SIZE + FILE_FOOTER_SIZE \<le> bufferSize"
      and "read_file_header mem b = Some fh"
      and "fh_Signature fh = PFS_HEADER_SIGNATURE" and "fh_HeaderVersion fh = 1"
      and "FILE_HEADER_SIZE + unat (fh_DataSize fh) + FILE_FOOTER_SIZE \<le> bufferSize"
      and "read_file_footer mem (b + FILE_HEADER_SIZE + unat (fh_DataSize fh)) = Some ff"
  shows "validate mem (Some b) bufferSize isSubsection s =
           Inr (b + FILE_HEADER_SIZE, b + FILE_HEADER_SIZE + unat (fh_DataSize fh),
                s\<lparr> console := console s @ pass_banner isSubsection fh ff @ footer_warnings fh ff \<rparr>)"
  using assms
  by (simp add: validate_def Let_def say_def pass_banner_def footer_warnings_def)

text \<open>
  C8. When the four fatal checks pass, the footer checks only print: a footer magic
  other than "PFS.FTR." and a footer data size other than the header's each add one
  warning to the console, after the two banners; the call goes on to the walk over
  the data region and to the end of the pass, it does not return 1, and it returns
  the value and makes the calls of the output sink that the same walk makes when no
  warning has been printed.
\<close>

theorem footer_mismatch_is_not_fatal:
  assumes "FILE_HEADER_SIZE + FILE_FOOTER_SIZE \<le> bufferSize"
      and "read_file_header mem b = Some fh"
      and "fh_Signature fh = PFS_HEADER_SIGNATURE" and "fh_HeaderVersion fh = 1"
      and "FILE_HEADER_SIZE + unat (fh_DataSize fh) + FILE_FOOTER_SIZE \<le> bufferSize"
      and "read_file_footer mem (b + FILE_HEADER_SIZE + unat (fh_DataSize fh)) = Some ff"
  shows "pfs_extract srt env mem (Some b) bufferSize filename s =
           finish_pass srt env filename
             (walk srt env mem (filename \<noteq> None)
                (b + FILE_HEADER_SIZE + unat (fh_DataSize fh)) (b + FILE_HEADER_SIZE) 0 []
                (s\<lparr> console := console s @ pass_banner (filename \<noteq> None) fh ff @
                       footer_warnings fh ff \<rparr>)) \<and>
         snd (pfs_extract srt env mem (Some b) bufferSize filename s) \<noteq> Inr 1 \<and>
         (\<forall>t rc. finish_pass srt env filename
             (walk srt env mem (filename \<noteq> None)
                (b + FILE_HEADER_SIZE + unat (fh_DataSize fh)) (b + FILE_HEADER_SIZE) 0 []
                (s\<lparr> console := console s @ pass_banner (filename \<noteq> None) fh ff \<rparr>)) = (t, Inr rc)
            \<longrightarrow> (\<exists>s'. pfs_extract srt env mem (Some b) bufferSize filename s = (s', Inr rc) \<and>
                      sink_calls s' = sink_calls t))"
proof -
  let ?walk = "\<lambda>u. finish_pass srt env filename
             (walk srt env mem (filename \<noteq> None)
                (b + FILE_HEADER_SIZE + unat (fh_DataSize fh)) (b + FILE_HEADER_SIZE) 0 [] u)"
  let ?s = "s\<lparr> console := console s @ pass_banner (filename \<noteq> None) fh ff @
                       footer_warnings fh ff \<rparr>"
  let ?t = "s\<lparr> console := console s @ pass_banner (filename \<noteq> None) fh ff \<rparr>"
  have eq: "pfs_extract srt env mem (Some b) bufferSize filename s = ?walk ?s"
    by (simp add: pfs_extract_validate validate_ok [OF assms])
  have not1: "snd (?walk ?s) \<noteq> Inr 1"
    by (cases "?walk ?s") (auto dest: finish_pass_result)
  have same: "\<exists>s'. ?walk ?s = (s', Inr rc) \<and> sink_calls s' = sink_calls t'"
    if "?walk ?t = (t', Inr rc)" for t' rc
  proof -
    have c: "\<forall>k. env k = CreateFailed \<longrightarrow> env k = CreateFailed" by simp
    have e: "sink_calls ?t = sink_calls ?s" by (simp add: sink_calls_def)
    from pass_sim [OF c e that] show ?thesis by auto
  qed
  from eq not1 same show ?thesis by simp
qed

lemma bad_footer_image_header:
  "read_file_header bad_footer_image 0 =
     Some \<lparr> fh_Signature = PFS_HEADER_SIGNATURE, fh_HeaderVersion = 1, fh_DataSize = 73 \<rparr>"
  by (simp add: pfs_eval bad_footer_image_def)

lemma bad_footer_image_footer:
  "read_file_footer bad_footer_image 89 =
     Some \<lparr> ff_DataSize = 5, ff_Checksum = 0, ff_Signature = le64 (bytes_of ''PFS.XXX.'') \<rparr>"
  by (simp add: pfs_eval bad_footer_image_def)

lemma bad_footer_image_walk:
  "walk stable_sort env_ok bad_footer_image False 89 16 0 []
     \<lparr> console = [FileHeaderInfo False PFS_HEADER_SIGNATURE 1 73,
                  FileFooterInfo False (le64 (bytes_of ''PFS.XXX.'')) 0 5,
                  InvalidFooterSignature, DataSizeMismatch 73 5], files = [] \<rparr> =
     (\<lparr> console = [FileHeaderInfo False PFS_HEADER_SIGNATURE 1 73,
                   FileFooterInfo False (le64 (bytes_of ''PFS.XXX.'')) 0 5,
                   InvalidFooterSignature, DataSizeMismatch 73 5,
                   SectionHeaderInfo False 0 ''00000000-0000-0000-0000-000000000000''
                     ''00000000-0000-0000-0000-000000000000'' 1 0 0 0],
        files = [(''section_0_.data'', Some [0x5A], 0)] \<rparr>, Inr [])"
  by (simp add: pfs_eval bad_footer_image_def)

theorem footer_mismatch_is_not_fatal_witness:
  "pfs_extract stable_sort env_ok bad_footer_image (Some 0) 105 None empty_out =
     (\<lparr> console = [FileHeaderInfo False PFS_HEADER_SIGNATURE 1 73,
                   FileFooterInfo False (le64 (bytes_of ''PFS.XXX.'')) 0 5,
                   InvalidFooterSignature, DataSizeMismatch 73 5,
                   SectionHeaderInfo False 0 ''00000000-0000-0000-0000-000000000000''
                     ''00000000-0000-0000-0000-000000000000'' 1 0 0 0],
        files = [(''section_0_.data'', Some [0x5A], 0)] \<rparr>, Inr 0) \<and>
   snd (pfs_extract stable_sort env_ok bad_footer_image (Some 0) 105 None empty_out) \<noteq> Inr 1"
proof -
  have h: "read_file_header bad_footer_image 0 =
     Some \<lparr> fh_Signature = PFS_HEADER_SIGNATURE, fh_HeaderVersion = 1, fh_DataSize = 73 \<rparr>"
    by (rule bad_footer_image_header)
  have f: "read_file_footer bad_footer_image
       (0 + FILE_HEADER_SIZE +
        unat (fh_DataSize \<lparr> fh_Signature = PFS_HEADER_SIGNATURE, fh_HeaderVersion = 1,
                             fh_DataSize = 73 \<rparr>)) =
     Some \<lparr> ff_DataSize = 5, ff_Checksum = 0, ff_Signature = le64 (bytes_of ''PFS.XXX.'') \<rparr>"
    using bad_footer_image_footer by (simp add: FILE_HEADER_SIZE_def)
  have w: "le64 (bytes_of ''PFS.XXX.'') \<noteq> PFS_FOOTER_SIGNATURE"
    by (simp add: pfs_eval)
  from footer_mismatch_is_not_fatal [of 105 bad_footer_image 0 _ _ stable_sort env_ok None
      empty_out, OF _ h _ _ _ f] bad_footer_image_walk w
  show ?thesis
    by (simp add: FILE_HEADER_SIZE_def FILE_FOOTER_SIZE_def pass_banner_def footer_warnings_def
        empty_out_def finish_pass_def)
qed

subsection \<open>The section index\<close>

lemma loop_iter_counter:
  "loop_iter k srt env mem isSubsection dataEnd (sectionHeader, sectionNum, chunks, s) =
     Some (sectionHeader', sectionNum', chunks', s') \<Longrightarrow>
   sectionNum' = sectionNum + word_of_nat k"
proof (induction k arbitrary: sectionHeader sectionNum chunks s)
  case 0
  then show ?case by simp
next
  case (Suc k)
  from Suc.prems obtain sh s1 chunks1 where
    "loop_iter k srt env mem isSubsection dataEnd
       (sectionHeader + SECTION_HEADER_SIZE + blocks_size sh, sectionNum + 1, chunks1, s1) =
     Some (sectionHeader', sectionNum', chunks', s')"
    by (auto split: if_splits option.splits prod.splits sum.splits)
  from Suc.IH [OF this] show ?case by simp
qed

lemma loop_iter_walk:
  "loop_iter k srt env mem isSubsection dataEnd (sectionHeader, sectionNum, chunks, s) =
     Some (sectionHeader', sectionNum', chunks', s') \<Longrightarrow>
   walk srt env mem isSubsection dataEnd sectionHeader sectionNum chunks s =
     walk srt env mem isSubsection dataEnd sectionHeader' sectionNum' chunks' s'"
proof (induction k arbitrary: sectionHeader sectionNum chunks s)
  case 0
  then show ?case by simp
next
  case (Suc k)
  from Suc.prems obtain sh s1 chunks1 where
    a: "sectionHeader < dataEnd" "read_section_header mem sectionHeader = Some sh"
       "section_body srt env mem isSubsection sectionHeader sh sectionNum chunks s
          = (s1, Inr chunks1)" and
    b: "loop_iter k srt env mem isSubsection dataEnd
       (sectionHeader + SECTION_HEADER_SIZE + blocks_size sh, sectionNum + 1, chunks1, s1) =
     Some (sectionHeader', sectionNum', chunks', s')"
    by (auto split: if_splits option.splits prod.splits sum.splits)
  from a have "walk srt env mem isSubsection dataEnd sectionHeader sectionNum chunks s =
      walk srt env mem isSubsection dataEnd
        (sectionHeader + SECTION_HEADER_SIZE + blocks_size sh) (sectionNum + 1) chunks1 s1"
    by (subst walk.simps) simp
  with Suc.IH [OF b] show ?case by simp
qed

lemma normal_body_data_name:
  assumes "sh_DataSize sh \<noteq> 0"
      and "decode_version sh (say (section_info False sectionNum sh) s) = (version, s2)"
      and "normal_body srt env mem sectionHeader sh sectionNum chunks s = (s', Inr chunks')"
  shows "\<exists>rc. prefix (files s @ [(section_name sectionNum version ''data'',
                  read_bytes mem (sectionHeader + SECTION_HEADER_SIZE) (unat (sh_DataSize sh)),
                  rc)]) (files s')"
proof -
  let ?ptr = "sectionHeader + SECTION_HEADER_SIZE"
  let ?buf = "read_bytes mem ?ptr (unat (sh_DataSize sh))"
  obtain s3 w where w: "write_file env (section_name sectionNum version ''data'') ?buf s2 = (s3, w)"
    by (cases "write_file env (section_name sectionNum version ''data'') ?buf s2") auto
  with assms obtain rc where rc: "w = Inr rc"
    by (cases w) (auto simp: normal_body_def Let_def)
  from write_file_cases [OF w] rc decode_version_files' [OF assms(2)]
  have f3: "files s3 = files s @ [(section_name sectionNum version ''data'', ?buf, rc)]"
    by auto
  have "prefix (files s3) (files s')"
  proof -
    from assms w rc obtain sig where sig: "rd64 mem ?ptr = Some sig"
      by (auto simp: normal_body_def Let_def split: option.splits)
    show ?thesis
    proof (cases "sig = PFS_HEADER_SIGNATURE")
      case False
      with assms w rc sig
      have "after_data env mem False sectionNum version ?ptr sh (s3, Inr chunks) = (s', Inr chunks')"
        by (simp add: normal_body_def Let_def)
      from after_data_prefix [OF this] show ?thesis .
    next
      case True
      obtain s4 rn where n: "chunk_pass srt env mem (Some ?ptr) (unat (sh_DataSize sh))
          (section_name sectionNum version ''payload'') s3 = (s4, rn)"
        by (cases "chunk_pass srt env mem (Some ?ptr) (unat (sh_DataSize sh))
          (section_name sectionNum version ''payload'') s3") auto
      with assms w rc sig True obtain rc4 where
        a: "after_data env mem False sectionNum version ?ptr sh (s4, Inr chunks) = (s', Inr chunks')"
        by (cases rn) (auto simp: normal_body_def Let_def)
      from chunk_pass_prefix [OF n] after_data_prefix [OF a] show ?thesis
        by (rule prefix_order.trans)
    qed
  qed
  with f3 show ?thesis by auto
qed

text \<open>
  C10. \<open>sectionNum\<close> is a \<^verbatim>\<open>uint8_t\<close> that starts at 0 and is incremented once per
  iteration (line 300): when iteration k of a pass starts, its value is k modulo 256.
  The names of the files written for that section carry this value, so the 257th
  section of a pass (k = 256) is written under index 0 again: its data file is named
  \<open>section_0_<version>data\<close>, the name the first section's data file has when the two
  version strings are equal.
\<close>

theorem section_index_wraps_at_256:
  assumes "loop_iter k srt env mem False dataEnd (dataStart, 0, [], s) =
             Some (sectionHeader, sectionNum, chunks, s1)"
      and "read_section_header mem sectionHeader = Some sh"
      and "sh_DataSize sh \<noteq> 0"
      and "decode_version sh (say (section_info False sectionNum sh) s1) = (version, s2)"
      and "section_body srt env mem False sectionHeader sh sectionNum chunks s1 = (s', Inr chunks')"
  shows "unat sectionNum = k mod 256 \<and>
         walk srt env mem False dataEnd dataStart 0 [] s =
           walk srt env mem False dataEnd sectionHeader sectionNum chunks s1 \<and>
         (\<exists>rc. prefix
            (files s1 @
               [(''section_'' @ to_dec (k mod 256) @ ''_'' @ version @ ''data'',
                 read_bytes mem (sectionHeader + SECTION_HEADER_SIZE) (unat (sh_DataSize sh)),
                 rc)])
            (files s')) \<and>
         (k = 256 \<longrightarrow> sectionNum = 0 \<and>
            section_name sectionNum version ''data'' = ''section_0_'' @ version @ ''data'')"
proof -
  from loop_iter_counter [OF assms(1)] have n: "sectionNum = word_of_nat k" by simp
  then have u: "unat sectionNum = k mod 256"
    by (simp add: unat_of_nat)
  have w: "walk srt env mem False dataEnd dataStart 0 [] s =
           walk srt env mem False dataEnd sectionHeader sectionNum chunks s1"
    by (rule loop_iter_walk [OF assms(1)])
  from assms(5) have "normal_body srt env mem sectionHeader sh sectionNum chunks s1 = (s', Inr chunks')"
    by (simp add: section_body_normal)
  from normal_body_data_name [OF assms(3,4) this] u
  have f: "\<exists>rc. prefix
            (files s1 @
               [(''section_'' @ to_dec (k mod 256) @ ''_'' @ version @ ''data'',
                 read_bytes mem (sectionHeader + SECTION_HEADER_SIZE) (unat (sh_DataSize sh)),
                 rc)])
            (files s')"
    by (simp add: section_name_def)
  have z: "k = 256 \<longrightarrow> sectionNum = 0 \<and>
            section_name sectionNum version ''data'' = ''section_0_'' @ version @ ''data''"
    using n by (simp add: section_name_def to_dec.simps hex_digit_def)
  from u w f z show ?thesis by blast
qed

lemma zero_region_bytes:
  assumes "length pre \<le> off" and "off + n \<le> length pre + m"
  shows "read_bytes (pre @ replicate m 0 @ post) off n = Some (replicate n 0)"
proof -
  from assms have "take n (drop off (pre @ replicate m 0 @ post)) = replicate n 0"
    by (simp add: min_def)
  with assms show ?thesis by (simp add: read_bytes_def)
qed

lemma zero_region_header:
  assumes "length pre \<le> off" and "off + SECTION_HEADER_SIZE \<le> length pre + m"
  shows "read_section_header (pre @ replicate m 0 @ post) off = Some blank_section_header"
  by (simp add: read_section_header_def zero_region_bytes [OF assms])
     (simp add: SECTION_HEADER_SIZE_def blank_section_header_def blank_guid_def parse_guid_def
        le16_def le32_def le64_def word_rcat_def replicate_numeral_eval)

lemma blank_section_body:
  "section_body srt env mem False sectionHeader blank_section_header sectionNum chunks s =
     (say (section_info False sectionNum blank_section_header) s, Inr chunks)"
  by (simp add: section_body_normal normal_body_def decode_version_def version_loop.simps
      after_data_def emit_rest_def emit_block_def blank_section_header_def say_def)

lemma blocks_size_blank [simp]: "blocks_size blank_section_header = 0"
  by (simp add: blocks_size_def blank_section_header_def)

lemma loop_iter_zero_sections:
  "length pre \<le> off \<Longrightarrow> off + SECTION_HEADER_SIZE * k \<le> length pre + m \<Longrightarrow>
   off + SECTION_HEADER_SIZE * k \<le> dataEnd \<Longrightarrow>
   \<exists>s'. loop_iter k srt env (pre @ replicate m 0 @ post) False dataEnd (off, n, chunks, s) =
          Some (off + SECTION_HEADER_SIZE * k, n + word_of_nat k, chunks, s') \<and>
        files s' = files s"
proof (induction k arbitrary: off n s)
  case 0
  then show ?case by simp
next
  case (Suc k)
  let ?mem = "pre @ replicate m 0 @ post"
  from Suc.prems have h: "read_section_header ?mem off = Some blank_section_header"
    by (intro zero_region_header) (simp_all add: SECTION_HEADER_SIZE_def)
  from Suc.prems have lt: "off < dataEnd" by (simp add: SECTION_HEADER_SIZE_def)
  from Suc.prems have
    "length pre \<le> off + SECTION_HEADER_SIZE"
    "off + SECTION_HEADER_SIZE + SECTION_HEADER_SIZE * k \<le> length pre + m"
    "off + SECTION_HEADER_SIZE + SECTION_HEADER_SIZE * k \<le> dataEnd"
    by simp_all
  from Suc.IH [OF this, of "n + 1" "say (section_info False n blank_section_header) s"]
  obtain s' where
    "loop_iter k srt env ?mem False dataEnd
       (off + SECTION_HEADER_SIZE, n + 1, chunks, say (section_info False n blank_section_header) s) =
     Some (off + SECTION_HEADER_SIZE + SECTION_HEADER_SIZE * k, n + 1 + word_of_nat k, chunks, s')"
    "files s' = files s"
    by auto
  with h lt show ?case
    by (simp add: blank_section_body algebra_simps)
qed


lemmas big_eval = pfs_eval0 replicate_small_eval many_sections_image_def one_byte_section_def
  one_byte_section_header_def

lemma many_sections_first_header:
  "read_section_header many_sections_image 16 = Some one_byte_section_header"
  by (simp add: big_eval)

lemma many_sections_last_header:
  "read_section_header many_sections_image 18449 = Some one_byte_section_header"
  by (simp add: big_eval)

lemma many_sections_first_body:
  "section_body srt env_ok many_sections_image False 16 one_byte_section_header 0 [] s =
     (s\<lparr> console := console s @ [section_info False 0 one_byte_section_header],
         files := files s @ [(''section_0_.data'', Some [0x11], 0)] \<rparr>, Inr [])"
  by (simp add: section_body_normal normal_body_def big_eval)

lemma many_sections_last_body:
  "section_body srt env_ok many_sections_image False 18449 one_byte_section_header 0 [] s =
     (s\<lparr> console := console s @ [section_info False 0 one_byte_section_header],
         files := files s @ [(''section_0_.data'', Some [0x22], 0)] \<rparr>, Inr [])"
  by (simp add: section_body_normal normal_body_def big_eval)

lemma many_sections_loop:
  "\<exists>s1. loop_iter 256 srt env_ok many_sections_image False 18522 (16, 0, [], s) =
           Some (18449, 0, [], s1) \<and>
         files s1 = files s @ [(''section_0_.data'', Some [0x11], 0)]"
proof -
  let ?pre = "example_header 18506 @ one_byte_section 0x11"
  let ?post = "one_byte_section 0x22 @ example_footer 18506"
  let ?s = "s\<lparr> console := console s @ [section_info False 0 one_byte_section_header],
         files := files s @ [(''section_0_.data'', Some [0x11], 0)] \<rparr>"
  have m: "many_sections_image = ?pre @ replicate 18360 0 @ ?post"
    by (simp add: many_sections_image_def)
  have l: "length ?pre = 89"
    by (simp add: big_eval)
  have "\<exists>s'. loop_iter 255 srt env_ok many_sections_image False 18522
          (89, 1, [], ?s) = Some (89 + SECTION_HEADER_SIZE * 255, 1 + word_of_nat 255, [], s') \<and>
        files s' = files ?s"
    unfolding m
    by (rule loop_iter_zero_sections) (insert l, simp_all add: SECTION_HEADER_SIZE_def)
  moreover have "(1::u8) + word_of_nat 255 = 0" by simp
  moreover have "89 + SECTION_HEADER_SIZE * 255 = 18449" by (simp add: SECTION_HEADER_SIZE_def)
  ultimately obtain s1 where
    z: "loop_iter 255 srt env_ok many_sections_image False 18522 (89, 1, [], ?s) =
          Some (18449, 0, [], s1)" "files s1 = files ?s"
    by (metis (no_types, lifting))
  have b: "blocks_size one_byte_section_header = 1"
    by (simp add: big_eval)
  have "loop_iter (Suc 255) srt env_ok many_sections_image False 18522 (16, 0, [], s) =
        Some (18449, 0, [], s1)"
    using z(1) by (subst loop_iter.simps(2))
      (simp add: many_sections_first_header many_sections_first_body b SECTION_HEADER_SIZE_def)
  with z(2) show ?thesis by simp
qed

lemma many_sections_validate:
  "validate many_sections_image (Some 0) 18538 False empty_out =
     Inr (16, 18522,
          \<lparr> console = [FileHeaderInfo False PFS_HEADER_SIGNATURE 1 18506,
                       FileFooterInfo False PFS_FOOTER_SIGNATURE 0 18506], files = [] \<rparr>)"
  by (simp add: validate_def big_eval)

theorem section_index_wraps_at_256_witness:
  "length many_sections_image = 18538 \<and>
   snd (pfs_main stable_sort env_ok many_sections_image) = Inr 0 \<and>
   sink_calls (fst (pfs_main stable_sort env_ok many_sections_image)) =
     [(''section_0_.data'', Some [0x11]), (''section_0_.data'', Some [0x22])]"
proof -
  let ?s0 = "\<lparr> console = [FileHeaderInfo False PFS_HEADER_SIGNATURE 1 18506,
                       FileFooterInfo False PFS_FOOTER_SIGNATURE 0 18506], files = [] \<rparr>"
  have len: "length many_sections_image = 18538"
    by (simp add: big_eval)
  from many_sections_loop [of stable_sort ?s0] obtain s1 where
    loop: "loop_iter 256 stable_sort env_ok many_sections_image False 18522 (16, 0, [], ?s0) =
           Some (18449, 0, [], s1)" and
    f1: "files s1 = [(''section_0_.data'', Some [0x11], 0)]"
    by auto
  let ?s' = "s1\<lparr> console := console s1 @ [section_info False 0 one_byte_section_header],
         files := files s1 @ [(''section_0_.data'', Some [0x22], 0)] \<rparr>"
  have nz: "sh_DataSize one_byte_section_header \<noteq> 0"
    by (simp add: one_byte_section_header_def)
  have dv: "decode_version one_byte_section_header
              (say (section_info False 0 one_byte_section_header) s1) =
            (''.'', say (section_info False 0 one_byte_section_header) s1)"
    by (simp add: decode_version_def version_loop.simps one_byte_section_header_def
        blank_section_header_def say_def)
  from section_index_wraps_at_256 [OF loop many_sections_last_header nz dv
      many_sections_last_body]
  have w: "walk stable_sort env_ok many_sections_image False 18522 16 0 [] ?s0 =
           walk stable_sort env_ok many_sections_image False 18522 18449 0 [] s1"
    by simp
  have b: "blocks_size one_byte_section_header = 1"
    by (simp add: big_eval)
  have stop: "walk stable_sort env_ok many_sections_image False 18522 18522 1 [] ?s' = (?s', Inr [])"
    by (subst walk.simps) simp
  have "walk stable_sort env_ok many_sections_image False 18522 18449 0 [] s1 = (?s', Inr [])"
    by (subst walk.simps)
       (simp add: many_sections_last_header many_sections_last_body b SECTION_HEADER_SIZE_def stop)
  with w have "pfs_main stable_sort env_ok many_sections_image = (?s', Inr 0)"
    by (simp add: pfs_main_def pfs_extract_validate len many_sections_validate finish_pass_def)
  with f1 len show ?thesis
    by (simp add: sink_calls_def)
qed

end
